theory Spec2Isabelle
  imports Complex_Main "HOL-Library.Char_ord" "HOL-Library.List_Lexorder"
    "HOL-Library.Product_Lexorder"
begin

section \<open>Values of a table cell\<close>

text \<open>
  The tables of \<^verbatim>\<open>data_processor.py\<close> are pandas frames whose numeric cells are
  float64 values. A float is modelled by the rational it stands for, or by one of the
  three special values of IEEE 754: rounding is not modelled, and the two zeros are one
  value (a division by zero takes the sign of the numerator, as it does for the zero
  \<^verbatim>\<open>+0.0\<close>). \<open>NaN\<close> is also the missing value of pandas.
\<close>

datatype fval = Fin rat | PInf | NInf | NaN

fun fdiv :: "fval \<Rightarrow> fval \<Rightarrow> fval" where
  "fdiv NaN _ = NaN"
| "fdiv _ NaN = NaN"
| "fdiv (Fin x) (Fin y) =
     (if y \<noteq> 0 then Fin (x / y) else if 0 < x then PInf else if x < 0 then NInf else NaN)"
| "fdiv (Fin x) PInf = Fin 0"
| "fdiv (Fin x) NInf = Fin 0"
| "fdiv PInf (Fin y) = (if 0 \<le> y then PInf else NInf)"
| "fdiv NInf (Fin y) = (if 0 \<le> y then NInf else PInf)"
| "fdiv PInf PInf = NaN"
| "fdiv PInf NInf = NaN"
| "fdiv NInf PInf = NaN"
| "fdiv NInf NInf = NaN"

fun fsub :: "fval \<Rightarrow> fval \<Rightarrow> fval" where
  "fsub NaN _ = NaN"
| "fsub _ NaN = NaN"
| "fsub (Fin x) (Fin y) = Fin (x - y)"
| "fsub (Fin x) PInf = NInf"
| "fsub (Fin x) NInf = PInf"
| "fsub PInf (Fin y) = PInf"
| "fsub NInf (Fin y) = NInf"
| "fsub PInf PInf = NaN"
| "fsub PInf NInf = PInf"
| "fsub NInf PInf = NInf"
| "fsub NInf NInf = NaN"

fun fmul :: "fval \<Rightarrow> fval \<Rightarrow> fval" where
  "fmul NaN _ = NaN"
| "fmul _ NaN = NaN"
| "fmul (Fin x) (Fin y) = Fin (x * y)"
| "fmul (Fin x) PInf = (if 0 < x then PInf else if x < 0 then NInf else NaN)"
| "fmul (Fin x) NInf = (if 0 < x then NInf else if x < 0 then PInf else NaN)"
| "fmul PInf (Fin y) = (if 0 < y then PInf else if y < 0 then NInf else NaN)"
| "fmul NInf (Fin y) = (if 0 < y then NInf else if y < 0 then PInf else NaN)"
| "fmul PInf PInf = PInf"
| "fmul PInf NInf = NInf"
| "fmul NInf PInf = NInf"
| "fmul NInf NInf = PInf"

text \<open>A cell of a column that \<^verbatim>\<open>read_csv\<close> left as text, or a number.\<close>

datatype cell = Str string | Num fval

datatype error = ValueError | AttributeError | IndexError

section \<open>Python's string operations\<close>

definition endswith :: "string \<Rightarrow> string \<Rightarrow> bool" where
  "endswith s suffix = (length suffix \<le> length s \<and> drop (length s - length suffix) s = suffix)"

text \<open>\<^verbatim>\<open>s.strip(chars)\<close>: drops the characters of \<open>chars\<close> at both ends.\<close>

definition strip :: "string \<Rightarrow> string \<Rightarrow> string" where
  "strip s chars =
     rev (dropWhile (\<lambda>c. c \<in> set chars) (rev (dropWhile (\<lambda>c. c \<in> set chars) s)))"

text \<open>\<^verbatim>\<open>sub in s\<close>.\<close>

fun contains :: "string \<Rightarrow> string \<Rightarrow> bool" where
  "contains [] sub = (sub = [])"
| "contains (c # cs) sub = (take (length sub) (c # cs) = sub \<or> contains cs sub)"

text \<open>
  \<^verbatim>\<open>s.split(sep)\<close>, for a separator that is not empty (Python raises on an empty one;
  the source only splits on \<^verbatim>\<open>'sent_'\<close> and \<^verbatim>\<open>'.csv'\<close>). \<open>cur\<close> is the piece
  read so far.
\<close>

function split_from :: "string \<Rightarrow> string \<Rightarrow> string \<Rightarrow> string list" where
  "split_from sep cur [] = [cur]"
| "split_from sep cur (c # cs) =
     (if sep \<noteq> [] \<and> take (length sep) (c # cs) = sep
      then cur # split_from sep [] (drop (length sep) (c # cs))
      else split_from sep (cur @ [c]) cs)"
  by pat_completeness auto
termination
  by (relation "measure (\<lambda>(sep, cur, s). length s)") auto

definition split :: "string \<Rightarrow> string \<Rightarrow> string list" where
  "split s sep = split_from sep [] s"

text \<open>\<^verbatim>\<open>os.path.basename\<close> on a POSIX path: what follows the last slash.\<close>

definition basename :: "string \<Rightarrow> string" where
  "basename p = rev (takeWhile (\<lambda>c. c \<noteq> CHR ''/'') (rev p))"

text \<open>The decimal digits of a natural number, as an f-string prints it.\<close>

definition digit_char :: "nat \<Rightarrow> char" where
  "digit_char d = ''0123456789'' ! d"

fun str_nat :: "nat \<Rightarrow> string" where
  "str_nat n = (if n < 10 then [digit_char n] else str_nat (n div 10) @ [digit_char (n mod 10)])"

declare str_nat.simps [simp del]

section \<open>Python's \<^verbatim>\<open>float\<close> on a string\<close>

text \<open>
  The builtin \<^verbatim>\<open>float(s)\<close> on ASCII text: white space around the literal is dropped;
  then comes an optional sign and either \<^verbatim>\<open>inf\<close>, \<^verbatim>\<open>infinity\<close> or \<^verbatim>\<open>nan\<close> in any
  case, or a decimal number with an optional exponent, where a single underscore may
  stand between two digits. Anything else raises \<^verbatim>\<open>ValueError\<close>, here \<open>None\<close>.
\<close>

definition is_space :: "char \<Rightarrow> bool" where
  "is_space c = (c \<in> set [CHR '' '', CHR 0x09, CHR 0x0A, CHR 0x0B, CHR 0x0C, CHR 0x0D,
                            CHR 0x1C, CHR 0x1D, CHR 0x1E, CHR 0x1F])"

definition digit_of :: "char \<Rightarrow> nat option" where
  "digit_of c = (let n = (of_char c :: nat) in if 48 \<le> n \<and> n \<le> 57 then Some (n - 48) else None)"

definition lower :: "char \<Rightarrow> char" where
  "lower c = (let n = (of_char c :: nat) in if 65 \<le> n \<and> n \<le> 90 then char_of (n + 32) else c)"

text \<open>The digits that follow the first digit of a digit part, and the text after them.\<close>

fun digits_tail :: "string \<Rightarrow> nat list \<times> string" where
  "digits_tail [] = ([], [])"
| "digits_tail [c] = (case digit_of c of Some d \<Rightarrow> ([d], []) | None \<Rightarrow> ([], [c]))"
| "digits_tail (c # c' # cs) =
     (case digit_of c of
        Some d \<Rightarrow> (case digits_tail (c' # cs) of (ds, r) \<Rightarrow> (d # ds, r))
      | None \<Rightarrow>
          (if c = CHR ''_'' then
             (case digit_of c' of
                Some d \<Rightarrow> (case digits_tail cs of (ds, r) \<Rightarrow> (d # ds, r))
              | None \<Rightarrow> ([], c # c' # cs))
           else ([], c # c' # cs)))"

definition digitpart :: "string \<Rightarrow> (nat list \<times> string) option" where
  "digitpart s =
     (case s of
        [] \<Rightarrow> None
      | c # cs \<Rightarrow>
          (case digit_of c of
             None \<Rightarrow> None
           | Some d \<Rightarrow> (case digits_tail cs of (ds, r) \<Rightarrow> Some (d # ds, r))))"

definition nat_of_digits :: "nat list \<Rightarrow> nat" where
  "nat_of_digits ds = foldl (\<lambda>a d. 10 * a + d) 0 ds"

text \<open>The integer digits, the fraction digits and the text after the number.\<close>

definition number :: "string \<Rightarrow> (nat list \<times> nat list \<times> string) option" where
  "number s =
     (case digitpart s of
        Some (ip, r) \<Rightarrow>
          (case r of
             [] \<Rightarrow> Some (ip, [], [])
           | c # r' \<Rightarrow>
               (if c = CHR ''.'' then
                  (case digitpart r' of
                     Some (fp, r'') \<Rightarrow> Some (ip, fp, r'')
                   | None \<Rightarrow> Some (ip, [], r'))
                else Some (ip, [], r)))
      | None \<Rightarrow>
          (case s of
             [] \<Rightarrow> None
           | c # r' \<Rightarrow>
               (if c = CHR ''.'' then
                  (case digitpart r' of
                     Some (fp, r'') \<Rightarrow> Some ([], fp, r'')
                   | None \<Rightarrow> None)
                else None)))"

text \<open>The exponent: nothing, or \<^verbatim>\<open>e\<close>, an optional sign and a digit part up to the end.\<close>

definition exponent :: "string \<Rightarrow> int option" where
  "exponent s =
     (case s of
        [] \<Rightarrow> Some 0
      | c # r \<Rightarrow>
          (if lower c = CHR ''e'' then
             (let (neg, r') =
                    (case r of
                       [] \<Rightarrow> (False, r)
                     | d # r'' \<Rightarrow>
                         (if d = CHR ''-'' then (True, r'')
                          else if d = CHR ''+'' then (False, r'') else (False, r)))
              in case digitpart r' of
                   Some (ds, []) \<Rightarrow>
                     Some (if neg then - int (nat_of_digits ds) else int (nat_of_digits ds))
                 | _ \<Rightarrow> None)
           else None))"

definition scale :: "rat \<Rightarrow> int \<Rightarrow> rat" where
  "scale x e = (if 0 \<le> e then x * 10 ^ nat e else x / 10 ^ nat (- e))"

definition absfloatvalue :: "string \<Rightarrow> fval option" where
  "absfloatvalue s =
     (if map lower s = ''inf'' \<or> map lower s = ''infinity'' then Some PInf
      else if map lower s = ''nan'' then Some NaN
      else
        (case number s of
           None \<Rightarrow> None
         | Some (ip, fp, r) \<Rightarrow>
             (case exponent r of
                None \<Rightarrow> None
              | Some e \<Rightarrow>
                  Some (Fin (scale (of_nat (nat_of_digits ip)
                                      + of_nat (nat_of_digits fp) / 10 ^ length fp) e)))))"

definition fneg :: "fval \<Rightarrow> fval" where
  "fneg v = (case v of Fin x \<Rightarrow> Fin (- x) | PInf \<Rightarrow> NInf | NInf \<Rightarrow> PInf | NaN \<Rightarrow> NaN)"

definition float :: "string \<Rightarrow> fval option" where
  "float s =
     (let t = rev (dropWhile is_space (rev (dropWhile is_space s)))
      in case t of
           [] \<Rightarrow> None
         | c # r \<Rightarrow>
             (if c = CHR ''-'' then map_option fneg (absfloatvalue r)
              else if c = CHR ''+'' then absfloatvalue r
              else absfloatvalue t))"

section \<open>The tables\<close>

text \<open>
  The six volume counters of a row. In a weekly row they are what
  \<^verbatim>\<open>pd.to_numeric(errors='coerce')\<close> leaves: an integer, or \<open>None\<close> for a cell that is
  empty or is not a number. In an aggregate they are sums.
\<close>

record 'a counters =
  Sent :: 'a
  Delivered :: 'a
  Opened :: 'a
  Clicked :: 'a
  Bounced :: 'a
  Unsubscribed :: 'a

record weekly_row = "int option counters" +
  Message_name :: "string option"
  Subject :: "string option"
  Semana :: "string option"

text \<open>
  A weekly frame: its rate columns, by name, as the cells \<^verbatim>\<open>read_csv\<close> gave, and its
  typed columns, row by row.
\<close>

record weekly_frame =
  rate_columns :: "(string \<times> cell list) list"
  records :: "weekly_row list"

text \<open>The mapping file: the columns \<^verbatim>\<open>Message name\<close> and \<^verbatim>\<open>Automacao\<close>.\<close>

type_synonym mapping_table = "(string option \<times> string option) list"

text \<open>
  A row of the joined frame, on the columns the aggregations read: the weekly row and
  the \<^verbatim>\<open>Automacao\<close> of the mapping.
\<close>

record merged_row = weekly_row +
  Automacao :: "string option"

text \<open>A row of a grouped frame: the key of the group, the sums and the six rates.\<close>

record 'k metrics = "int counters" +
  group_key :: 'k
  Delivery_Rate :: fval
  Open_Rate :: fval
  Click_Rate :: fval
  CTOR :: fval
  Bounce_Rate :: fval
  Unsubscribe_Rate :: fval

record 'k changes = "'k metrics" +
  Open_Rate_Change :: fval
  Click_Rate_Change :: fval
  CTOR_Change :: fval

record week_summary =
  semana :: string
  total_sent :: int
  total_delivered :: int
  total_opened :: int
  total_clicked :: int
  total_bounced :: int
  total_unsubscribed :: int
  delivery_rate :: fval
  open_rate :: fval
  click_rate :: fval
  bounce_rate :: fval
  unsubscribe_rate :: fval
  ctor :: fval

text \<open>
  The state of an \<^verbatim>\<open>EmailDataProcessor\<close>. \<open>historical_data\<close> is a Python dict: its
  keys are in the order of their first insertion. \<open>weeks\<close> is
  \<^verbatim>\<open>metadata['weeks']\<close>; the two time stamps of the metadata are left out.
\<close>

record processor =
  historical_data :: "(string option \<times> weekly_frame) list"
  mapping_data :: "mapping_table option"
  current_week_data :: "weekly_frame option"
  all_weeks_data :: "weekly_frame option"
  weeks :: "string option list"

definition EmailDataProcessor :: "string option list option \<Rightarrow> processor" where
  \<comment> \<open>the argument is the list of weeks of the metadata file, when the file exists\<close>
  "EmailDataProcessor saved =
     \<lparr>historical_data = [], mapping_data = None, current_week_data = None,
      all_weeks_data = None, weeks = (case saved of None \<Rightarrow> [] | Some ws \<Rightarrow> ws)\<rparr>"

text \<open>\<^verbatim>\<open>d[k] = v\<close> on a dict.\<close>

fun dict_set :: "('k \<times> 'v) list \<Rightarrow> 'k \<Rightarrow> 'v \<Rightarrow> ('k \<times> 'v) list" where
  "dict_set [] k v = [(k, v)]"
| "dict_set ((k', v') # d) k v = (if k' = k then (k, v) # d else (k', v') # dict_set d k v)"

section \<open>The normalizer\<close>

definition convert_percent_to_float :: "cell \<Rightarrow> error + cell" where
  "convert_percent_to_float v =
     (case v of
        Str s \<Rightarrow>
          (if endswith s ''%'' then
             (case float (strip s ''%'') of
                None \<Rightarrow> Inl ValueError
              | Some x \<Rightarrow> Inr (Num (fdiv x (Fin 100))))
           else Inr v)
      | Num _ \<Rightarrow> Inr v)"

text \<open>\<^verbatim>\<open>Series.apply\<close>: the first exception ends it.\<close>

fun series_apply :: "('a \<Rightarrow> error + 'b) \<Rightarrow> 'a list \<Rightarrow> error + 'b list" where
  "series_apply f [] = Inr []"
| "series_apply f (x # xs) =
     (case f x of
        Inl e \<Rightarrow> Inl e
      | Inr y \<Rightarrow> (case series_apply f xs of Inl e \<Rightarrow> Inl e | Inr ys \<Rightarrow> Inr (y # ys)))"

definition percent_columns :: "string list" where
  "percent_columns = [''Open rate'', ''Click rate'', ''CTOR'', ''Bounce rate'',
                      ''Spam complaint rate'', ''Unsubscribe rate'']"

text \<open>
  The loop over \<open>percent_columns\<close>: a column of that name, when the frame has one, is
  replaced by its converted cells.
\<close>

fun convert_columns :: "string list \<Rightarrow> (string \<times> cell list) list \<Rightarrow> error + (string \<times> cell list) list" where
  "convert_columns [] df = Inr df"
| "convert_columns (col # cols) df =
     (if col \<in> fst ` set df then
        (case series_apply (\<lambda>(name, cells).
                       if name = col then map_sum id (Pair name) (series_apply convert_percent_to_float cells)
                       else Inr (name, cells)) df of
           Inl e \<Rightarrow> Inl e
         | Inr df' \<Rightarrow> convert_columns cols df')
      else convert_columns cols df)"

text \<open>
  The body of the \<^verbatim>\<open>try\<close> of \<^verbatim>\<open>load_weekly_data\<close>, on the base name of the file:
  \<open>Inr None\<close> when the \<^verbatim>\<open>if\<close> does not hold and \<^verbatim>\<open>week_label\<close> stays \<^verbatim>\<open>None\<close>.
\<close>

definition label_of_filename :: "string \<Rightarrow> error + string option" where
  "label_of_filename filename =
     (if contains filename ''sent_'' \<and> contains filename ''.csv'' then
        (case split filename ''sent_'' of
           _ # rest # _ \<Rightarrow>
             (case split rest ''.csv'' of
                date_part # _ \<Rightarrow> Inr (Some (take 10 date_part @ '' a '' @ drop 10 date_part))
              | [] \<Rightarrow> Inl IndexError)
         | _ \<Rightarrow> Inl IndexError)
      else Inr None)"

text \<open>
  The \<^verbatim>\<open>try\<close> with its \<^verbatim>\<open>except\<close>. \<open>now\<close> is the clock: the ISO week number and
  the year of \<^verbatim>\<open>datetime.datetime.now()\<close>.
\<close>

definition infer_week_label :: "string \<Rightarrow> nat \<times> nat \<Rightarrow> string option" where
  "infer_week_label file_path now =
     (case label_of_filename (basename file_path) of
        Inr l \<Rightarrow> l
      | Inl e \<Rightarrow> Some (''Semana '' @ str_nat (fst now) @ '', '' @ str_nat (snd now)))"

text \<open>
  \<^verbatim>\<open>load_weekly_data\<close>, from the frame that \<^verbatim>\<open>read_csv\<close> returned. The result is the
  new state and what the call returns or raises: the state is written before the name of
  the week file is built, where \<^verbatim>\<open>week_label.replace\<close> raises \<^verbatim>\<open>AttributeError\<close> on
  \<^verbatim>\<open>None\<close>.
\<close>

definition load_weekly_data ::
  "processor \<Rightarrow> weekly_frame \<Rightarrow> string \<Rightarrow> string option \<Rightarrow> nat \<times> nat
     \<Rightarrow> processor \<times> (error + weekly_frame)" where
  "load_weekly_data p raw file_path week_label now =
     (case convert_columns percent_columns (rate_columns raw) of
        Inl e \<Rightarrow> (p, Inl e)
      | Inr cols \<Rightarrow>
          (let label = (case week_label of
                          None \<Rightarrow> infer_week_label file_path now
                        | Some l \<Rightarrow> Some l);
               df = \<lparr>rate_columns = cols,
                     records = map (\<lambda>r. r\<lparr>Semana := label\<rparr>) (records raw)\<rparr>;
               p' = p\<lparr>current_week_data := Some df,
                      historical_data := dict_set (historical_data p) label df,
                      weeks := (if label \<in> set (weeks p) then weeks p else weeks p @ [label])\<rparr>
           in case label of
                None \<Rightarrow> (p', Inl AttributeError)
              | Some l \<Rightarrow> (p', Inr df)))"

definition load_automation_mapping :: "processor \<Rightarrow> mapping_table \<Rightarrow> processor \<times> mapping_table" where
  "load_automation_mapping p df = (p\<lparr>mapping_data := Some df\<rparr>, df)"

section \<open>The historical store and the join\<close>

text \<open>
  \<^verbatim>\<open>pd.merge(df, mapping, on='Message name', how='left')\<close>: the left rows in their
  order, each once for every mapping row of the same key, in the order of the mapping,
  and once with no \<^verbatim>\<open>Automacao\<close> when there is none. Two missing keys are equal keys
  for pandas, as \<open>None = None\<close> here.
\<close>

definition with_automation :: "weekly_row \<Rightarrow> string option \<Rightarrow> merged_row" where
  "with_automation r a = weekly_row.extend r (merged_row.fields a)"

definition merge :: "weekly_row list \<Rightarrow> mapping_table \<Rightarrow> merged_row list" where
  "merge df mapping =
     concat (map (\<lambda>r. case filter (\<lambda>e. fst e = Message_name r) mapping of
                         [] \<Rightarrow> [with_automation r None]
                       | es \<Rightarrow> map (\<lambda>e. with_automation r (snd e)) es) df)"

definition merge_with_mapping :: "processor \<Rightarrow> weekly_frame option \<Rightarrow> error + merged_row list" where
  "merge_with_mapping p df =
     (case (case df of None \<Rightarrow> current_week_data p | Some d \<Rightarrow> Some d) of
        None \<Rightarrow> Inl ValueError
      | Some d \<Rightarrow>
          (case mapping_data p of
             None \<Rightarrow> Inl ValueError
           | Some mapping \<Rightarrow> Inr (merge (records d) mapping)))"

text \<open>
  \<^verbatim>\<open>pd.concat(frames, ignore_index=True)\<close>: the rows of the frames one after the other;
  a rate column that a frame lacks is filled with missing values there.
\<close>

definition pd_concat :: "weekly_frame list \<Rightarrow> weekly_frame" where
  "pd_concat frames =
     \<lparr>rate_columns =
        map (\<lambda>name. (name, concat (map (\<lambda>f. case map_of (rate_columns f) name of
                                               Some cells \<Rightarrow> cells
                                             | None \<Rightarrow> replicate (length (records f)) (Num NaN))
                                     frames)))
            (remdups (concat (map (\<lambda>f. map fst (rate_columns f)) frames))),
      records = concat (map records frames)\<rparr>"

definition combine_all_weeks :: "processor \<Rightarrow> processor \<times> (error + weekly_frame)" where
  "combine_all_weeks p =
     (if historical_data p = [] then (p, Inl ValueError)
      else (let all_data = pd_concat (map snd (historical_data p))
            in (p\<lparr>all_weeks_data := Some all_data\<rparr>, Inr all_data)))"

definition get_available_weeks :: "processor \<Rightarrow> string option list" where
  "get_available_weeks p = weeks p"

section \<open>The aggregations\<close>

text \<open>\<^verbatim>\<open>Series.sum()\<close>: missing values are skipped.\<close>

definition col_sum :: "('r \<Rightarrow> int option) \<Rightarrow> 'r list \<Rightarrow> int" where
  "col_sum col rows = sum_list (map (\<lambda>r. case col r of None \<Rightarrow> 0 | Some v \<Rightarrow> v) rows)"

definition agg_sum :: "(int option, 'z) counters_scheme list \<Rightarrow> int counters" where
  "agg_sum rows =
     \<lparr>Sent = col_sum Sent rows, Delivered = col_sum Delivered rows,
      Opened = col_sum Opened rows, Clicked = col_sum Clicked rows,
      Bounced = col_sum Bounced rows, Unsubscribed = col_sum Unsubscribed rows\<rparr>"

text \<open>
  \<^verbatim>\<open>df.groupby(keys).agg({... 'sum'}).reset_index()\<close>: one row for each key that
  occurs, in the sorted order of the keys; a row whose key is missing is in no group.
\<close>

definition groupby_sum ::
  "((int option, 'z) counters_scheme \<Rightarrow> 'k::linorder option)
     \<Rightarrow> (int option, 'z) counters_scheme list \<Rightarrow> ('k \<times> int counters) list" where
  "groupby_sum key rows =
     map (\<lambda>k. (k, agg_sum (filter (\<lambda>r. key r = Some k) rows)))
         (sort (remdups (List.map_filter key rows)))"

text \<open>The division of two columns of sums.\<close>

definition rate :: "int \<Rightarrow> int \<Rightarrow> fval" where
  "rate a b = fdiv (Fin (of_int a)) (Fin (of_int b))"

definition with_rates :: "'k \<times> int counters \<Rightarrow> 'k metrics" where
  "with_rates g =
     (case g of (k, c) \<Rightarrow>
        \<lparr>Sent = Sent c, Delivered = Delivered c, Opened = Opened c, Clicked = Clicked c,
         Bounced = Bounced c, Unsubscribed = Unsubscribed c,
         group_key = k,
         Delivery_Rate = rate (Delivered c) (Sent c),
         Open_Rate = rate (Opened c) (Delivered c),
         Click_Rate = rate (Clicked c) (Delivered c),
         CTOR = rate (Clicked c) (Opened c),
         Bounce_Rate = rate (Bounced c) (Sent c),
         Unsubscribe_Rate = rate (Unsubscribed c) (Delivered c)\<rparr>)"

text \<open>\<^verbatim>\<open>if self.all_weeks_data is None: self.combine_all_weeks()\<close>.\<close>

definition ensure_combined :: "processor \<Rightarrow> processor \<times> (error + weekly_frame)" where
  "ensure_combined p =
     (case all_weeks_data p of None \<Rightarrow> combine_all_weeks p | Some d \<Rightarrow> (p, Inr d))"

definition get_week_summary :: "processor \<Rightarrow> string option \<Rightarrow> error + week_summary" where
  "get_week_summary p week_label =
     (case (case week_label of
              Some l \<Rightarrow> Inr (Some l)
            | None \<Rightarrow>
                (case current_week_data p of
                   None \<Rightarrow> Inr None
                 | Some d \<Rightarrow>
                     (case records d of [] \<Rightarrow> Inl IndexError | r # _ \<Rightarrow> Inr (Semana r)))) of
        Inl e \<Rightarrow> Inl e
      | Inr None \<Rightarrow> Inl ValueError
      | Inr (Some l) \<Rightarrow>
          (case map_of (historical_data p) (Some l) of
             None \<Rightarrow> Inl ValueError
           | Some df \<Rightarrow>
               (let t = agg_sum (records df)
                in Inr \<lparr>semana = l,
                        total_sent = Sent t, total_delivered = Delivered t,
                        total_opened = Opened t, total_clicked = Clicked t,
                        total_bounced = Bounced t, total_unsubscribed = Unsubscribed t,
                        delivery_rate = (if 0 < Sent t then rate (Delivered t) (Sent t) else Fin 0),
                        open_rate = (if 0 < Delivered t then rate (Opened t) (Delivered t) else Fin 0),
                        click_rate = (if 0 < Delivered t then rate (Clicked t) (Delivered t) else Fin 0),
                        bounce_rate = (if 0 < Sent t then rate (Bounced t) (Sent t) else Fin 0),
                        unsubscribe_rate =
                          (if 0 < Delivered t then rate (Unsubscribed t) (Delivered t) else Fin 0),
                        ctor = (if 0 < Opened t then rate (Clicked t) (Opened t) else Fin 0)\<rparr>)))"

definition get_automation_performance ::
  "processor \<Rightarrow> int \<Rightarrow> processor \<times> (error + string metrics list)" where
  "get_automation_performance p min_emails =
     (case ensure_combined p of
        (p', Inl e) \<Rightarrow> (p', Inl e)
      | (p', Inr all_data) \<Rightarrow>
          (case mapping_data p' of
             None \<Rightarrow> (p', Inl ValueError)
           | Some _ \<Rightarrow>
               (case merge_with_mapping p' (Some all_data) of
                  Inl e \<Rightarrow> (p', Inl e)
                | Inr merged_data \<Rightarrow>
                    (p', Inr (filter (\<lambda>m. min_emails \<le> Sent m)
                                (map with_rates (groupby_sum Automacao merged_data)))))))"

definition automation_week :: "merged_row \<Rightarrow> (string \<times> string) option" where
  "automation_week r =
     (case (Automacao r, Semana r) of (Some a, Some w) \<Rightarrow> Some (a, w) | _ \<Rightarrow> None)"

definition get_weekly_automation_performance ::
  "processor \<Rightarrow> processor \<times> (error + (string \<times> string) metrics list)" where
  "get_weekly_automation_performance p =
     (case ensure_combined p of
        (p', Inl e) \<Rightarrow> (p', Inl e)
      | (p', Inr all_data) \<Rightarrow>
          (case mapping_data p' of
             None \<Rightarrow> (p', Inl ValueError)
           | Some _ \<Rightarrow>
               (case merge_with_mapping p' (Some all_data) of
                  Inl e \<Rightarrow> (p', Inl e)
                | Inr merged_data \<Rightarrow>
                    (p', Inr (map with_rates (groupby_sum automation_week merged_data))))))"

text \<open>
  \<^verbatim>\<open>analyze_subject_performance\<close>, without the four columns it derives from the text
  of the subject after the filter.
\<close>

definition analyze_subject_performance ::
  "processor \<Rightarrow> int \<Rightarrow> processor \<times> (error + string metrics list)" where
  "analyze_subject_performance p min_emails =
     (case ensure_combined p of
        (p', Inl e) \<Rightarrow> (p', Inl e)
      | (p', Inr all_data) \<Rightarrow>
          (p', Inr (filter (\<lambda>m. min_emails \<le> Sent m)
                      (map with_rates (groupby_sum Subject (records all_data))))))"

section \<open>The week-over-week changes\<close>

text \<open>
  \<^verbatim>\<open>groupby('Automacao')[col].pct_change()\<close> on the rows in their order, each with its
  group: the value divided by the one before it in its group, minus 1, and a missing
  value for the first row of a group. \<open>prev\<close> holds, for each group, the value of its
  last row so far. pandas before 3.0 first fills a missing value with the one before it
  in the group; from 3.0 on it does not: \<open>pad\<close> says which pandas runs.
\<close>

fun pct_change :: "bool \<Rightarrow> (string \<Rightarrow> fval option) \<Rightarrow> (string \<times> fval) list \<Rightarrow> fval list" where
  "pct_change pad prev [] = []"
| "pct_change pad prev ((g, v) # rows) =
     (let filled = (if pad \<and> v = NaN then (case prev g of None \<Rightarrow> NaN | Some u \<Rightarrow> u) else v);
          change = (case prev g of None \<Rightarrow> NaN | Some u \<Rightarrow> fsub (fdiv filled u) (Fin 1))
      in change # pct_change pad (prev(g \<mapsto> filled)) rows)"

definition rate_change ::
  "bool \<Rightarrow> ((string \<times> string, 'z) metrics_scheme \<Rightarrow> fval)
     \<Rightarrow> (string \<times> string, 'z) metrics_scheme list \<Rightarrow> fval list" where
  "rate_change pad col weekly_perf =
     map (\<lambda>c. fmul c (Fin 100))
         (pct_change pad Map.empty (map (\<lambda>m. (fst (group_key m), col m)) weekly_perf))"

definition with_changes ::
  "(string \<times> string) metrics \<times> fval \<times> fval \<times> fval \<Rightarrow> (string \<times> string) changes" where
  "with_changes x =
     (case x of (m, oc, cc, tc) \<Rightarrow>
        metrics.extend m (changes.fields oc cc tc))"

definition get_week_over_week_changes ::
  "bool \<Rightarrow> processor \<Rightarrow> processor \<times> (error + (string \<times> string) changes list)" where
  "get_week_over_week_changes pad p =
     (case get_weekly_automation_performance p of
        (p', Inl e) \<Rightarrow> (p', Inl e)
      | (p', Inr perf) \<Rightarrow>
          (let weekly_perf = sort_key group_key perf
           in (p', Inr (map with_changes
                          (zip weekly_perf
                             (zip (rate_change pad Open_Rate weekly_perf)
                                (zip (rate_change pad Click_Rate weekly_perf)
                                   (rate_change pad CTOR weekly_perf))))))))"

section \<open>Properties of a rate cell\<close>



section \<open>Example data\<close>

text \<open>
  Inputs for the examples below: a weekly row with its name and its sent, delivered,
  opened and clicked counters, and the processor that has loaded a mapping and then some
  weeks, each under its label.
\<close>

definition campaign :: "string \<Rightarrow> int \<Rightarrow> int \<Rightarrow> int \<Rightarrow> int \<Rightarrow> weekly_row" where
  "campaign name s d opn c =
     \<lparr>Sent = Some s, Delivered = Some d, Opened = Some opn, Clicked = Some c,
      Bounced = Some 0, Unsubscribed = Some 0, Message_name = Some name,
      Subject = Some ''Hello'', Semana = None\<rparr>"

definition ingest :: "mapping_table \<Rightarrow> (string \<times> weekly_row list) list \<Rightarrow> processor" where
  "ingest mp weekly =
     foldl (\<lambda>p (label, rows).
              fst (load_weekly_data p \<lparr>rate_columns = [], records = rows\<rparr> ''upload.csv''
                     (Some label) (1, 2025)))
           (fst (load_automation_mapping (EmailDataProcessor None) mp)) weekly"

definition two_small_weeks :: processor where
  "two_small_weeks =
     ingest [(Some ''A'', Some ''G1'')]
       [(''2025-01-06 a 2025-01-12'', [campaign ''A'' 60 60 30 3, campaign ''X'' 500 500 100 10]),
        (''2025-01-13 a 2025-01-19'', [campaign ''A'' 60 60 30 3])]"

definition week_nine_then_ten :: processor where
  "week_nine_then_ten =
     ingest [(Some ''A'', Some ''G1'')]
       [(''Week 9'', [campaign ''A'' 100 100 25 5]),
        (''Week 10'', [campaign ''A'' 100 100 50 5])]"

definition zero_then_half :: processor where
  "zero_then_half =
     ingest [(Some ''A'', Some ''G1'')]
       [(''2025-01-06 a 2025-01-12'', [campaign ''A'' 100 100 0 0]),
        (''2025-01-13 a 2025-01-19'', [campaign ''A'' 100 100 50 5])]"



definition comma_upload :: weekly_frame where
  "comma_upload =
     \<lparr>rate_columns = [(''Open rate'', [Str ''25%'', Str ''12,5%''])],
      records = [campaign ''A'' 200 200 50 10, campaign ''B'' 200 200 25 5]\<rparr>"

definition no_opens :: processor where
  "no_opens =
     ingest [(Some ''A'', Some ''G1'')]
       [(''2025-01-06 a 2025-01-12'', [campaign ''A'' 200 200 0 0])]"

section \<open>How the calls unfold\<close>

lemma convert_columns_Nil: "convert_columns cols [] = Inr []"
  by (induction cols) simp_all

lemma records_pd_concat: "records (pd_concat frames) = concat (map records frames)"
  by (simp add: pd_concat_def)

lemma ensure_combined_fresh:
  "all_weeks_data p = None \<Longrightarrow> historical_data p \<noteq> [] \<Longrightarrow>
   ensure_combined p =
     (p\<lparr>all_weeks_data := Some (pd_concat (map snd (historical_data p)))\<rparr>,
      Inr (pd_concat (map snd (historical_data p))))"
  by (simp add: ensure_combined_def combine_all_weeks_def Let_def)

lemma get_automation_performance_fresh:
  assumes "all_weeks_data p = None" and "historical_data p \<noteq> []" and "mapping_data p = Some mp"
  shows "snd (get_automation_performance p k) =
           Inr (filter (\<lambda>m. k \<le> Sent m)
                  (map with_rates
                     (groupby_sum Automacao
                        (merge (concat (map (records \<circ> snd) (historical_data p))) mp))))"
  using assms
  by (simp add: get_automation_performance_def ensure_combined_fresh merge_with_mapping_def
      records_pd_concat)

lemma load_weekly_data_labelled:
  "load_weekly_data p \<lparr>rate_columns = [], records = rs\<rparr> file_path (Some w) now =
     (let df = \<lparr>rate_columns = [], records = map (\<lambda>r. r\<lparr>Semana := Some w\<rparr>) rs\<rparr>
      in (p\<lparr>current_week_data := Some df,
            historical_data := dict_set (historical_data p) (Some w) df,
            weeks := (if Some w \<in> set (weeks p) then weeks p else weeks p @ [Some w])\<rparr>,
          Inr df))"
  by (simp add: load_weekly_data_def convert_columns_Nil Let_def)


lemma ensure_combined_mapping:
  "ensure_combined p = (p', r) \<Longrightarrow> mapping_data p' = mapping_data p"
  by (auto simp: ensure_combined_def combine_all_weeks_def Let_def split: option.splits if_splits)

lemma get_automation_performance_eq:
  assumes "ensure_combined p = (p', Inr d)" and "mapping_data p = Some mp"
  shows "get_automation_performance p k =
           (p', Inr (filter (\<lambda>m. k \<le> Sent m)
                       (map with_rates (groupby_sum Automacao (merge (records d) mp)))))"
  using assms ensure_combined_mapping [OF assms(1)]
  by (simp add: get_automation_performance_def merge_with_mapping_def)

lemma get_weekly_automation_performance_eq:
  assumes "ensure_combined p = (p', Inr d)" and "mapping_data p = Some mp"
  shows "get_weekly_automation_performance p =
           (p', Inr (map with_rates (groupby_sum automation_week (merge (records d) mp))))"
  using assms ensure_combined_mapping [OF assms(1)]
  by (simp add: get_weekly_automation_performance_def merge_with_mapping_def)

lemma truncate_with_automation [simp]: "weekly_row.truncate (with_automation r a) = r"
  by (simp add: with_automation_def weekly_row.truncate_def weekly_row.extend_def)

lemma Automacao_with_automation [simp]: "Automacao (with_automation r a) = a"
  by (simp add: with_automation_def weekly_row.extend_def merged_row.fields_def)

lemma Semana_with_automation [simp]: "Semana (with_automation r a) = Semana r"
  by (simp add: with_automation_def weekly_row.extend_def merged_row.fields_def)

lemma Sent_with_automation [simp]: "Sent (with_automation r a) = Sent r"
  by (simp add: with_automation_def weekly_row.extend_def merged_row.fields_def)

text \<open>The rows that the join makes of one weekly row.\<close>

lemma merge_Cons:
  "merge (r # df) mp =
     (case filter (\<lambda>e. fst e = Message_name r) mp of
        [] \<Rightarrow> [with_automation r None]
      | es \<Rightarrow> map (\<lambda>e. with_automation r (snd e)) es) @ merge df mp"
  by (simp add: merge_def)

lemma merge_Nil [simp]: "merge [] mp = []"
  by (simp add: merge_def)

lemma merge_append: "merge (xs @ ys) mp = merge xs mp @ merge ys mp"
  by (simp add: merge_def)

lemma merge_unmatched:
  "Message_name r \<notin> fst ` set mp \<Longrightarrow> merge [r] mp = [with_automation r None]"
proof -
  assume "Message_name r \<notin> fst ` set mp"
  then have "filter (\<lambda>e. fst e = Message_name r) mp = []"
    by (force simp: filter_empty_conv)
  then show ?thesis by (simp add: merge_def)
qed

lemma merge_one_truncate:
  "j \<in> set (merge [r] mp) \<Longrightarrow> weekly_row.truncate j = r"
  by (auto simp: merge_def split: list.splits)

lemma merge_one_nonempty: "merge [r] mp \<noteq> []"
  by (auto simp: merge_def split: list.splits)

lemma set_merge: "set (merge df mp) = (\<Union>r\<in>set df. set (merge [r] mp))"
  by (induction df) (auto simp: merge_Cons merge_def)

lemma length_merge: "length df \<le> length (merge df mp)"
proof (induction df)
  case Nil
  show ?case by simp
next
  case (Cons r df)
  have "1 \<le> length (merge [r] mp)"
    using merge_one_nonempty [of r mp] by (cases "merge [r] mp") simp_all
  moreover have "merge (r # df) mp = merge [r] mp @ merge df mp"
    using merge_append [of "[r]" df mp] by simp
  ultimately show ?case using Cons by simp
qed


text \<open>What a grouped frame holds.\<close>

lemma map_fst_groupby_sum:
  "map fst (groupby_sum key rows) = sort (remdups (List.map_filter key rows))"
  by (simp add: groupby_sum_def comp_def)


lemma distinct_groupby_sum: "distinct (map fst (groupby_sum key rows))"
  by (simp add: map_fst_groupby_sum)

lemma sorted_groupby_sum: "sorted (map fst (groupby_sum key rows))"
  by (simp add: map_fst_groupby_sum)


lemma Sent_with_rates [simp]: "Sent (with_rates (k, c)) = Sent c"
  by (simp add: with_rates_def)

lemma group_key_with_rates [simp]: "group_key (with_rates (k, c)) = k"
  by (simp add: with_rates_def)

lemma Sent_agg_sum [simp]: "Sent (agg_sum rows) = col_sum Sent rows"
  by (simp add: agg_sum_def)


lemma map_filter_filter_key:
  assumes "\<And>r. key r \<noteq> None \<Longrightarrow> P r"
  shows "List.map_filter key (filter P rows) = List.map_filter key rows"
proof (induction rows)
  case Nil
  show ?case by simp
next
  case (Cons r rows)
  then show ?case
    using assms [of r] by (cases "key r") (auto simp: List.map_filter_simps)
qed

lemma groupby_sum_filter:
  assumes "\<And>r. key r \<noteq> None \<Longrightarrow> P r"
  shows "groupby_sum key (filter P rows) = groupby_sum key rows"
proof -
  have keep: "key r = Some k \<Longrightarrow> P r" for r k
    using assms [of r] by simp
  have "filter (\<lambda>r. key r = Some k) (filter P rows) = filter (\<lambda>r. key r = Some k) rows" for k
    by (induction rows) (auto dest: keep)
  then show ?thesis
    by (simp add: groupby_sum_def map_filter_filter_key [OF assms])
qed

lemma filter_merge_mapped:
  "filter (\<lambda>j. Automacao j \<noteq> None) (merge (filter (\<lambda>r. Message_name r \<in> fst ` set mp) df) mp)
     = filter (\<lambda>j. Automacao j \<noteq> None) (merge df mp)"
proof (induction df)
  case Nil
  show ?case by simp
next
  case (Cons r df)
  show ?case
  proof (cases "Message_name r \<in> fst ` set mp")
    case True
    then show ?thesis using Cons by (simp add: merge_Cons)
  next
    case False
    then have "filter (\<lambda>e. fst e = Message_name r) mp = []"
      by (force simp: filter_empty_conv)
    then show ?thesis using False Cons by (simp add: merge_Cons)
  qed
qed

lemma groupby_sum_merge_mapped:
  assumes "\<And>j. key j \<noteq> None \<Longrightarrow> Automacao j \<noteq> None"
  shows "groupby_sum key (merge (filter (\<lambda>r. Message_name r \<in> fst ` set mp) df) mp)
           = groupby_sum key (merge df mp)"
proof -
  have "groupby_sum key (merge (filter (\<lambda>r. Message_name r \<in> fst ` set mp) df) mp)
          = groupby_sum key (filter (\<lambda>j. Automacao j \<noteq> None)
               (merge (filter (\<lambda>r. Message_name r \<in> fst ` set mp) df) mp))"
    by (rule groupby_sum_filter [symmetric]) (rule assms)
  also have "\<dots> = groupby_sum key (filter (\<lambda>j. Automacao j \<noteq> None) (merge df mp))"
    by (simp only: filter_merge_mapped)
  also have "\<dots> = groupby_sum key (merge df mp)"
    by (rule groupby_sum_filter) (rule assms)
  finally show ?thesis .
qed


lemmas ingest_defs =
  ingest_def load_weekly_data_labelled load_automation_mapping_def EmailDataProcessor_def
  campaign_def Let_def

lemma two_small_weeks_state:
  "mapping_data two_small_weeks = Some [(Some ''A'', Some ''G1'')]"
  "all_weeks_data two_small_weeks = None"
  "historical_data two_small_weeks \<noteq> []"
  "records (pd_concat (map snd (historical_data two_small_weeks))) =
     [(campaign ''A'' 60 60 30 3)\<lparr>Semana := Some ''2025-01-06 a 2025-01-12''\<rparr>,
      (campaign ''X'' 500 500 100 10)\<lparr>Semana := Some ''2025-01-06 a 2025-01-12''\<rparr>,
      (campaign ''A'' 60 60 30 3)\<lparr>Semana := Some ''2025-01-13 a 2025-01-19''\<rparr>]"
  by (simp_all add: two_small_weeks_def ingest_defs records_pd_concat)

lemma two_small_weeks_merged:
  "merge (records (pd_concat (map snd (historical_data two_small_weeks))))
         [(Some ''A'', Some ''G1'')] =
     [with_automation ((campaign ''A'' 60 60 30 3)\<lparr>Semana := Some ''2025-01-06 a 2025-01-12''\<rparr>) (Some ''G1''),
      with_automation ((campaign ''X'' 500 500 100 10)\<lparr>Semana := Some ''2025-01-06 a 2025-01-12''\<rparr>) None,
      with_automation ((campaign ''A'' 60 60 30 3)\<lparr>Semana := Some ''2025-01-13 a 2025-01-19''\<rparr>) (Some ''G1'')]"
  unfolding two_small_weeks_state by (simp add: merge_def campaign_def)

lemma length_pct_change [simp]: "length (pct_change pad prev rows) = length rows"
  by (induction rows arbitrary: prev) (auto simp: Let_def)

lemma length_rate_change [simp]: "length (rate_change pad col perf) = length perf"
  by (simp add: rate_change_def)

text \<open>The changes of the rows after \<open>xs\<close> start from some state that \<open>xs\<close> left.\<close>

lemma pct_change_append:
  "\<exists>prev'. pct_change pad prev (xs @ ys) = pct_change pad prev xs @ pct_change pad prev' ys
            \<and> (\<forall>g. g \<notin> fst ` set xs \<longrightarrow> prev' g = prev g)"
proof (induction xs arbitrary: prev)
  case Nil
  show ?case by (rule exI [of _ prev]) simp
next
  case (Cons x xs)
  obtain g v where x: "x = (g, v)" by (cases x)
  let ?filled = "if pad \<and> v = NaN then (case prev g of None \<Rightarrow> NaN | Some u \<Rightarrow> u) else v"
  from Cons [of "prev(g \<mapsto> ?filled)"] obtain prev' where
    p: "pct_change pad (prev(g \<mapsto> ?filled)) (xs @ ys)
          = pct_change pad (prev(g \<mapsto> ?filled)) xs @ pct_change pad prev' ys"
       "\<forall>h. h \<notin> fst ` set xs \<longrightarrow> prev' h = (prev(g \<mapsto> ?filled)) h"
    by blast
  show ?case
    by (rule exI [of _ prev']) (use p x in \<open>auto simp: Let_def\<close>)
qed

lemma pct_change_first:
  assumes "g \<notin> fst ` set xs"
  shows "pct_change pad Map.empty (xs @ (g, v) # ys) ! length xs = NaN"
proof -
  obtain prev' where
    p: "pct_change pad Map.empty (xs @ (g, v) # ys)
          = pct_change pad Map.empty xs @ pct_change pad prev' ((g, v) # ys)"
       "\<forall>h. h \<notin> fst ` set xs \<longrightarrow> prev' h = Map.empty h"
    using pct_change_append [of pad Map.empty xs "(g, v) # ys"] by blast
  have "prev' g = None" using p(2) assms by simp
  then show ?thesis
    by (simp add: p(1) nth_append Let_def)
qed

lemma pct_change_next:
  "pct_change pad prev (xs @ (g, Fin x) # (g, Fin y) # ys) ! Suc (length xs)
     = fsub (fdiv (Fin y) (Fin x)) (Fin 1)"
proof -
  obtain prev' where
    p: "pct_change pad prev (xs @ (g, Fin x) # (g, Fin y) # ys)
          = pct_change pad prev xs @ pct_change pad prev' ((g, Fin x) # (g, Fin y) # ys)"
    using pct_change_append [of pad prev xs "(g, Fin x) # (g, Fin y) # ys"] by blast
  show ?thesis
    by (simp add: p nth_append Let_def)
qed

lemma percent_change_value:
  "fmul (fsub (fdiv (Fin y) (Fin x)) (Fin 1)) (Fin 100)
     = (if x \<noteq> 0 then Fin ((y - x) / x * 100)
        else if 0 < y then PInf else if y < 0 then NInf else NaN)"
  by (simp add: field_simps)

text \<open>The columns of the frame of changes.\<close>

lemma with_changes_sel [simp]:
  "group_key (with_changes (m, oc, cc, tc)) = group_key m"
  "Open_Rate (with_changes (m, oc, cc, tc)) = Open_Rate m"
  "Click_Rate (with_changes (m, oc, cc, tc)) = Click_Rate m"
  "CTOR (with_changes (m, oc, cc, tc)) = CTOR m"
  "Open_Rate_Change (with_changes (m, oc, cc, tc)) = oc"
  "Click_Rate_Change (with_changes (m, oc, cc, tc)) = cc"
  "CTOR_Change (with_changes (m, oc, cc, tc)) = tc"
  by (simp_all add: with_changes_def metrics.extend_def changes.fields_def)

lemma map_with_changes:
  assumes "length a = length wp" and "length b = length wp" and "length c = length wp"
  shows "map (\<lambda>m. f (group_key m) (Open_Rate m) (Click_Rate m) (CTOR m))
             (map with_changes (zip wp (zip a (zip b c))))
           = map (\<lambda>m. f (group_key m) (Open_Rate m) (Click_Rate m) (CTOR m)) wp"
    and "map Open_Rate_Change (map with_changes (zip wp (zip a (zip b c)))) = a"
    and "map Click_Rate_Change (map with_changes (zip wp (zip a (zip b c)))) = b"
    and "map CTOR_Change (map with_changes (zip wp (zip a (zip b c)))) = c"
  using assms
proof (induction wp arbitrary: a b c)
  case Nil
  { case 1 show ?case by simp }
  { case 2 then show ?case by simp }
  { case 3 then show ?case by simp }
  { case 4 then show ?case by simp }
next
  case (Cons m wp)
  { case 1 then show ?case using Cons.IH(1) [of "tl a" "tl b" "tl c"]
      by (cases a; cases b; cases c) simp_all }
  { case 2 then show ?case using Cons.IH(2) [of "tl a" "tl b" "tl c"]
      by (cases a; cases b; cases c) simp_all }
  { case 3 then show ?case using Cons.IH(3) [of "tl a" "tl b" "tl c"]
      by (cases a; cases b; cases c) simp_all }
  { case 4 then show ?case using Cons.IH(4) [of "tl a" "tl b" "tl c"]
      by (cases a; cases b; cases c) simp_all }
qed


lemma weekly_performance_is_grouped:
  assumes "get_weekly_automation_performance p = (p', Inr perf)"
  shows "\<exists>rows. perf = map with_rates (groupby_sum automation_week rows)"
  using assms
  by (auto simp: get_weekly_automation_performance_def
      split: prod.splits sum.splits option.splits)

lemma group_key_grouped:
  "map group_key (map with_rates (groupby_sum key rows)) = map fst (groupby_sum key rows)"
  by (simp add: comp_def case_prod_beta with_rates_def)

lemma sort_grouped:
  "sort_key group_key (map with_rates (groupby_sum key rows))
     = map with_rates (groupby_sum key rows)"
  by (rule sort_key_id_if_sorted) (simp only: group_key_grouped sorted_groupby_sum)

lemma get_week_over_week_changes_eq:
  assumes "get_weekly_automation_performance p = (p', Inr perf)"
  shows "get_week_over_week_changes pad p =
           (p', Inr (map with_changes
                       (zip perf
                          (zip (rate_change pad Open_Rate perf)
                             (zip (rate_change pad Click_Rate perf)
                                (rate_change pad CTOR perf))))))"
proof -
  from weekly_performance_is_grouped [OF assms] obtain rows where
    "perf = map with_rates (groupby_sum automation_week rows)" ..
  then have "sort_key group_key perf = perf"
    by (simp only: sort_grouped)
  then show ?thesis
    using assms by (simp add: get_week_over_week_changes_def Let_def)
qed

lemma changes_of_failure:
  assumes "get_week_over_week_changes pad p = (p', Inr out)"
  shows "\<exists>perf. get_weekly_automation_performance p = (p', Inr perf)"
  using assms
  by (auto simp: get_week_over_week_changes_def Let_def split: prod.splits sum.splits)

lemma rate_change_cong:
  assumes "map (\<lambda>m. (fst (group_key m), col m)) xs = map (\<lambda>m. (fst (group_key m), col' m)) ys"
  shows "rate_change pad col xs = rate_change pad col' ys"
  using assms by (simp add: rate_change_def)

text \<open>
  What \<^verbatim>\<open>get_week_over_week_changes\<close> returns: the keys are in ascending order, and
  each column of changes is \<^verbatim>\<open>pct_change\<close> of its rate in that order.
\<close>

lemma changes_frame:
  assumes "get_week_over_week_changes pad p = (p', Inr out)"
  shows "sorted (map group_key out)" and "distinct (map group_key out)"
    and "map Open_Rate_Change out = rate_change pad Open_Rate out"
    and "map Click_Rate_Change out = rate_change pad Click_Rate out"
    and "map CTOR_Change out = rate_change pad CTOR out"
proof -
  from changes_of_failure [OF assms] obtain perf where
    perf: "get_weekly_automation_performance p = (p', Inr perf)" ..
  from weekly_performance_is_grouped [OF perf] obtain rows where
    rows: "perf = map with_rates (groupby_sum automation_week rows)" ..
  let ?a = "rate_change pad Open_Rate perf" and ?b = "rate_change pad Click_Rate perf"
    and ?c = "rate_change pad CTOR perf"
  have out: "out = map with_changes (zip perf (zip ?a (zip ?b ?c)))"
    using assms by (simp add: get_week_over_week_changes_eq [OF perf])
  have len: "length ?a = length perf" "length ?b = length perf" "length ?c = length perf"
    by simp_all
  have keys: "map group_key out = map group_key perf"
    unfolding out using map_with_changes(1) [OF len, of "\<lambda>k _ _ _. k"] by simp
  have "map group_key perf = map fst (groupby_sum automation_week rows)"
    by (simp only: rows group_key_grouped)
  with keys show "sorted (map group_key out)" and "distinct (map group_key out)"
    by (simp_all only: sorted_groupby_sum distinct_groupby_sum)
  have o: "map (\<lambda>m. (fst (group_key m), Open_Rate m)) out
             = map (\<lambda>m. (fst (group_key m), Open_Rate m)) perf"
    unfolding out using map_with_changes(1) [OF len, of "\<lambda>k x _ _. (fst k, x)"] by simp
  have c: "map (\<lambda>m. (fst (group_key m), Click_Rate m)) out
             = map (\<lambda>m. (fst (group_key m), Click_Rate m)) perf"
    unfolding out using map_with_changes(1) [OF len, of "\<lambda>k _ x _. (fst k, x)"] by simp
  have t: "map (\<lambda>m. (fst (group_key m), CTOR m)) out
             = map (\<lambda>m. (fst (group_key m), CTOR m)) perf"
    unfolding out using map_with_changes(1) [OF len, of "\<lambda>k _ _ x. (fst k, x)"] by simp
  show "map Open_Rate_Change out = rate_change pad Open_Rate out"
    unfolding rate_change_cong [OF o] unfolding out by (rule map_with_changes(2) [OF len])
  show "map Click_Rate_Change out = rate_change pad Click_Rate out"
    unfolding rate_change_cong [OF c] unfolding out by (rule map_with_changes(3) [OF len])
  show "map CTOR_Change out = rate_change pad CTOR out"
    unfolding rate_change_cong [OF t] unfolding out by (rule map_with_changes(4) [OF len])
qed

lemma week_nine_then_ten_state:
  "mapping_data week_nine_then_ten = Some [(Some ''A'', Some ''G1'')]"
  "all_weeks_data week_nine_then_ten = None"
  "historical_data week_nine_then_ten \<noteq> []"
  "records (pd_concat (map snd (historical_data week_nine_then_ten))) =
     [(campaign ''A'' 100 100 25 5)\<lparr>Semana := Some ''Week 9''\<rparr>,
      (campaign ''A'' 100 100 50 5)\<lparr>Semana := Some ''Week 10''\<rparr>]"
  "map fst (historical_data week_nine_then_ten) = [Some ''Week 9'', Some ''Week 10'']"
  "weeks week_nine_then_ten = [Some ''Week 9'', Some ''Week 10'']"
  by (simp_all add: week_nine_then_ten_def ingest_defs records_pd_concat)

lemmas row_defs =
  campaign_def col_sum_def agg_sum_def automation_week_def with_automation_def
  weekly_row.extend_def merged_row.fields_def

lemma week_nine_then_ten_performance:
  "get_weekly_automation_performance week_nine_then_ten =
     (week_nine_then_ten
        \<lparr>all_weeks_data := Some (pd_concat (map snd (historical_data week_nine_then_ten)))\<rparr>,
      Inr [with_rates ((''G1'', ''Week 10''),
             \<lparr>Sent = 100, Delivered = 100, Opened = 50, Clicked = 5, Bounced = 0,
              Unsubscribed = 0\<rparr>),
           with_rates ((''G1'', ''Week 9''),
             \<lparr>Sent = 100, Delivered = 100, Opened = 25, Clicked = 5, Bounced = 0,
              Unsubscribed = 0\<rparr>)])"
proof -
  let ?d = "pd_concat (map snd (historical_data week_nine_then_ten))"
  let ?mp = "[(Some ''A'', Some ''G1'')]"
  let ?a9 = "with_automation ((campaign ''A'' 100 100 25 5)\<lparr>Semana := Some ''Week 9''\<rparr>) (Some ''G1'')"
  let ?a10 = "with_automation ((campaign ''A'' 100 100 50 5)\<lparr>Semana := Some ''Week 10''\<rparr>) (Some ''G1'')"
  have h1: "ensure_combined week_nine_then_ten = (week_nine_then_ten\<lparr>all_weeks_data := Some ?d\<rparr>, Inr ?d)"
    by (rule ensure_combined_fresh) (rule week_nine_then_ten_state)+
  have h2: "mapping_data week_nine_then_ten = Some ?mp"
    by (rule week_nine_then_ten_state)
  have merged: "merge (records ?d) ?mp = [?a9, ?a10]"
    unfolding week_nine_then_ten_state by (simp add: campaign_def merge_def)
  have keys: "sort (remdups (List.map_filter automation_week [?a9, ?a10]))
                = [(''G1'', ''Week 10''), (''G1'', ''Week 9'')]"
    by (simp add: List.map_filter_def automation_week_def)
  have grouped: "groupby_sum automation_week [?a9, ?a10]
      = [((''G1'', ''Week 10''),
             \<lparr>Sent = 100, Delivered = 100, Opened = 50, Clicked = 5, Bounced = 0,
              Unsubscribed = 0\<rparr>),
         ((''G1'', ''Week 9''),
             \<lparr>Sent = 100, Delivered = 100, Opened = 25, Clicked = 5, Bounced = 0,
              Unsubscribed = 0\<rparr>)]"
    unfolding groupby_sum_def keys by (simp add: row_defs)
  show ?thesis
    unfolding get_weekly_automation_performance_eq [OF h1 h2] merged grouped by simp
qed

lemma week_nine_then_ten_changes:
  "map (\<lambda>c. (group_key c, Open_Rate c, Open_Rate_Change c))
       (projr (snd (get_week_over_week_changes pad week_nine_then_ten)))
     = [((''G1'', ''Week 10''), Fin (1 / 2), NaN), ((''G1'', ''Week 9''), Fin (1 / 4), Fin (- 50))]"
  unfolding get_week_over_week_changes_eq [OF week_nine_then_ten_performance]
  by (simp add: rate_change_def with_rates_def rate_def Let_def)

lemma zero_then_half_state:
  "mapping_data zero_then_half = Some [(Some ''A'', Some ''G1'')]"
  "all_weeks_data zero_then_half = None"
  "historical_data zero_then_half \<noteq> []"
  "records (pd_concat (map snd (historical_data zero_then_half))) =
     [(campaign ''A'' 100 100 0 0)\<lparr>Semana := Some ''2025-01-06 a 2025-01-12''\<rparr>,
      (campaign ''A'' 100 100 50 5)\<lparr>Semana := Some ''2025-01-13 a 2025-01-19''\<rparr>]"
  by (simp_all add: zero_then_half_def ingest_defs records_pd_concat)

lemma zero_then_half_performance:
  "get_weekly_automation_performance zero_then_half =
     (zero_then_half
        \<lparr>all_weeks_data := Some (pd_concat (map snd (historical_data zero_then_half)))\<rparr>,
      Inr [with_rates ((''G1'', ''2025-01-06 a 2025-01-12''),
             \<lparr>Sent = 100, Delivered = 100, Opened = 0, Clicked = 0, Bounced = 0,
              Unsubscribed = 0\<rparr>),
           with_rates ((''G1'', ''2025-01-13 a 2025-01-19''),
             \<lparr>Sent = 100, Delivered = 100, Opened = 50, Clicked = 5, Bounced = 0,
              Unsubscribed = 0\<rparr>)])"
proof -
  let ?d = "pd_concat (map snd (historical_data zero_then_half))"
  let ?mp = "[(Some ''A'', Some ''G1'')]"
  let ?w1 = "''2025-01-06 a 2025-01-12''" and ?w2 = "''2025-01-13 a 2025-01-19''"
  let ?a1 = "with_automation ((campaign ''A'' 100 100 0 0)\<lparr>Semana := Some ?w1\<rparr>) (Some ''G1'')"
  let ?a2 = "with_automation ((campaign ''A'' 100 100 50 5)\<lparr>Semana := Some ?w2\<rparr>) (Some ''G1'')"
  have h1: "ensure_combined zero_then_half = (zero_then_half\<lparr>all_weeks_data := Some ?d\<rparr>, Inr ?d)"
    by (rule ensure_combined_fresh) (rule zero_then_half_state)+
  have h2: "mapping_data zero_then_half = Some ?mp"
    by (rule zero_then_half_state)
  have merged: "merge (records ?d) ?mp = [?a1, ?a2]"
    unfolding zero_then_half_state by (simp add: campaign_def merge_def)
  have keys: "sort (remdups (List.map_filter automation_week [?a1, ?a2]))
                = [(''G1'', ?w1), (''G1'', ?w2)]"
    by (simp add: List.map_filter_def automation_week_def)
  have grouped: "groupby_sum automation_week [?a1, ?a2]
      = [((''G1'', ?w1),
             \<lparr>Sent = 100, Delivered = 100, Opened = 0, Clicked = 0, Bounced = 0,
              Unsubscribed = 0\<rparr>),
         ((''G1'', ?w2),
             \<lparr>Sent = 100, Delivered = 100, Opened = 50, Clicked = 5, Bounced = 0,
              Unsubscribed = 0\<rparr>)]"
    unfolding groupby_sum_def keys by (simp add: row_defs)
  show ?thesis
    unfolding get_weekly_automation_performance_eq [OF h1 h2] merged grouped by simp
qed

lemma zero_then_half_changes:
  "map (\<lambda>c. (group_key c, Open_Rate c, Open_Rate_Change c))
       (projr (snd (get_week_over_week_changes pad zero_then_half)))
     = [((''G1'', ''2025-01-06 a 2025-01-12''), Fin 0, NaN),
        ((''G1'', ''2025-01-13 a 2025-01-19''), Fin (1 / 2), PInf)]"
  unfolding get_week_over_week_changes_eq [OF zero_then_half_performance]
  by (simp add: rate_change_def with_rates_def rate_def Let_def)

lemma convert_percent_to_float_Num [simp]: "convert_percent_to_float (Num v) = Inr (Num v)"
  by (simp add: convert_percent_to_float_def)

lemma convert_percent_to_float_other [simp]:
  "\<not> endswith s ''%'' \<Longrightarrow> convert_percent_to_float (Str s) = Inr (Str s)"
  by (simp add: convert_percent_to_float_def)

lemma convert_percent_to_float_percent:
  "endswith s ''%'' \<Longrightarrow>
   convert_percent_to_float (Str s) =
     (case float (strip s ''%'') of
        None \<Rightarrow> Inl ValueError
      | Some x \<Rightarrow> Inr (Num (fdiv x (Fin 100))))"
  by (simp add: convert_percent_to_float_def)




lemmas float_defs =
  float_def absfloatvalue_def number_def digitpart_def digit_of_def is_space_def lower_def
  exponent_def scale_def nat_of_digits_def fneg_def

lemmas cell_defs = convert_percent_to_float_def endswith_def strip_def float_defs

lemma convert_examples:
  "convert_percent_to_float (Str ''25.5%'') = Inr (Num (Fin (51 / 200)))"
  "convert_percent_to_float (Str ''20%'') = Inr (Num (Fin (1 / 5)))"
  "convert_percent_to_float (Str ''25%'') = Inr (Num (Fin (1 / 4)))"
  "convert_percent_to_float (Str ''100%'') = Inr (Num (Fin 1))"
  "convert_percent_to_float (Str ''150%'') = Inr (Num (Fin (3 / 2)))"
  "convert_percent_to_float (Str ''12,5%'') = Inl ValueError"
  "convert_percent_to_float (Str ''n/a'') = Inr (Str ''n/a'')"
  by (simp_all add: cell_defs)




lemma load_comma_upload:
  "load_weekly_data p comma_upload file_path week_label now = (p, Inl ValueError)"
  by (simp add: load_weekly_data_def comma_upload_def percent_columns_def convert_examples)

lemma split_from_nonempty: "split_from sep cur s \<noteq> []"
  by (induction sep cur s rule: split_from.induct) auto

lemma split_from_two:
  assumes "contains s sep" and "sep \<noteq> []"
  shows "\<exists>a b rest. split_from sep cur s = a # b # rest"
  using assms
proof (induction sep cur s rule: split_from.induct)
  case (1 sep cur)
  then show ?case by simp
next
  case (2 sep cur c cs)
  show ?case
  proof (cases "take (length sep) (c # cs) = sep")
    case True
    obtain b rest where "split_from sep [] (drop (length sep) (c # cs)) = b # rest"
      using split_from_nonempty [of sep "[]" "drop (length sep) (c # cs)"]
      by (cases "split_from sep [] (drop (length sep) (c # cs))") auto
    with True "2.prems" show ?thesis by simp
  next
    case False
    with "2.prems" have "contains cs sep" by simp
    with False "2.IH"(2) "2.prems" show ?thesis by simp
  qed
qed

lemma label_of_filename_never_raises: "\<not> isl (label_of_filename filename)"
proof (cases "contains filename ''sent_'' \<and> contains filename ''.csv''")
  case False
  then show ?thesis by (auto simp: label_of_filename_def)
next
  case True
  then obtain a rest more where s: "split filename ''sent_'' = a # rest # more"
    unfolding split_def using split_from_two [of filename "''sent_''" "[]"] by auto
  obtain d ds where "split rest ''.csv'' = d # ds"
    unfolding split_def using split_from_nonempty [of "''.csv''" "[]" rest]
    by (cases "split_from ''.csv'' [] rest") auto
  with s True show ?thesis by (simp add: label_of_filename_def)
qed

lemma temporary_name_label: "infer_week_label ''/tmp/tmpk3x9ab.csv'' now = None"
  by (simp add: infer_week_label_def label_of_filename_def basename_def)

lemma export_name_label:
  "infer_week_label ''/data/Automation_messages_sent_2025-01-062025-01-12.csv'' now
     = Some ''2025-01-06 a 2025-01-12''"
  by (simp add: infer_week_label_def label_of_filename_def basename_def split_def)

lemma analyze_subject_performance_eq:
  assumes "ensure_combined p = (p', Inr d)"
  shows "analyze_subject_performance p k =
           (p', Inr (filter (\<lambda>m. k \<le> Sent m)
                       (map with_rates (groupby_sum Subject (records d)))))"
  using assms by (simp add: analyze_subject_performance_def)

lemma no_opens_state:
  "mapping_data no_opens = Some [(Some ''A'', Some ''G1'')]"
  "all_weeks_data no_opens = None"
  "historical_data no_opens \<noteq> []"
  "records (pd_concat (map snd (historical_data no_opens))) =
     [(campaign ''A'' 200 200 0 0)\<lparr>Semana := Some ''2025-01-06 a 2025-01-12''\<rparr>]"
  by (simp_all add: no_opens_def ingest_defs records_pd_concat)

lemma no_opens_summary:
  "get_week_summary no_opens None =
     Inr \<lparr>semana = ''2025-01-06 a 2025-01-12'', total_sent = 200, total_delivered = 200,
          total_opened = 0, total_clicked = 0, total_bounced = 0, total_unsubscribed = 0,
          delivery_rate = Fin 1, open_rate = Fin 0, click_rate = Fin 0, bounce_rate = Fin 0,
          unsubscribe_rate = Fin 0, ctor = Fin 0\<rparr>"
  by (simp add: get_week_summary_def no_opens_def ingest_defs agg_sum_def col_sum_def rate_def)

text \<open>The division of two sums, and the guard of \<^verbatim>\<open>get_week_summary\<close>.\<close>

lemma rate_nonzero: "b \<noteq> 0 \<Longrightarrow> rate a b = Fin (of_int a / of_int b)"
  by (simp add: rate_def)

lemma rate_zero: "rate a 0 = (if 0 < a then PInf else if a < 0 then NInf else NaN)"
  by (simp add: rate_def)

lemma week_summary_rates_finite:
  assumes "get_week_summary p week_label = Inr s"
  shows "\<exists>a b c d e f. delivery_rate s = Fin a \<and> open_rate s = Fin b \<and> click_rate s = Fin c
           \<and> bounce_rate s = Fin d \<and> unsubscribe_rate s = Fin e \<and> ctor s = Fin f"
  using assms
  by (auto simp: get_week_summary_def Let_def rate_def
      split: option.splits sum.splits list.splits if_splits)

section \<open>The end-to-end scenario\<close>

text \<open>
  C7. A new processor loads the mapping \<open>A \<mapsto> G1, B \<mapsto> G1\<close> and one week with the rows
  \<open>A\<close> (sent 100, delivered 98, opened 25, clicked 5) and \<open>B\<close> (sent 150, delivered 148,
  opened 30, clicked 8), whatever their other columns, the label of the week and the
  name of the file are. \<^verbatim>\<open>get_automation_performance\<close>, with its default
  \<^verbatim>\<open>min_emails\<close> of 100, then returns one row, for \<open>G1\<close>: sent 250, delivered 246,
  opened 55, clicked 13, open rate 55/246 and click rate 13/246.
\<close>

theorem scenario_G1:
  "\<exists>m. snd (get_automation_performance
          (fst (load_weekly_data
                 (fst (load_automation_mapping (EmailDataProcessor None)
                         [(Some ''A'', Some ''G1''), (Some ''B'', Some ''G1'')]))
                 \<lparr>rate_columns = [],
                  records =
                    [\<lparr>Sent = Some 100, Delivered = Some 98, Opened = Some 25, Clicked = Some 5,
                      Bounced = bA, Unsubscribed = uA, Message_name = Some ''A'',
                      Subject = sA, Semana = wA\<rparr>,
                     \<lparr>Sent = Some 150, Delivered = Some 148, Opened = Some 30, Clicked = Some 8,
                      Bounced = bB, Unsubscribed = uB, Message_name = Some ''B'',
                      Subject = sB, Semana = wB\<rparr>]\<rparr>
                 file_path (Some week) now))
          100) = Inr [m]
     \<and> group_key m = ''G1'' \<and> Sent m = 250 \<and> Delivered m = 246 \<and> Opened m = 55
     \<and> Clicked m = 13 \<and> Open_Rate m = Fin (55 / 246) \<and> Click_Rate m = Fin (13 / 246)"
proof -
  let ?mp = "[(Some ''A'', Some ''G1''), (Some ''B'', Some ''G1'')]"
  let ?rs = "[\<lparr>Sent = Some 100, Delivered = Some 98, Opened = Some 25, Clicked = Some 5,
                      Bounced = bA, Unsubscribed = uA, Message_name = Some ''A'',
                      Subject = sA, Semana = wA\<rparr>,
                     \<lparr>Sent = Some 150, Delivered = Some 148, Opened = Some 30, Clicked = Some 8,
                      Bounced = bB, Unsubscribed = uB, Message_name = Some ''B'',
                      Subject = sB, Semana = wB\<rparr>]"
  let ?p = "fst (load_weekly_data (fst (load_automation_mapping (EmailDataProcessor None) ?mp))
                 \<lparr>rate_columns = [], records = ?rs\<rparr> file_path (Some week) now)"
  have st: "all_weeks_data ?p = None" "historical_data ?p \<noteq> []" "mapping_data ?p = Some ?mp"
    by (simp_all add: load_weekly_data_labelled load_automation_mapping_def
          EmailDataProcessor_def Let_def)
  have recs: "concat (map (records \<circ> snd) (historical_data ?p))
                = map (\<lambda>r. r\<lparr>Semana := Some week\<rparr>) ?rs"
    by (simp add: load_weekly_data_labelled load_automation_mapping_def
          EmailDataProcessor_def Let_def)
  have mg: "map Automacao (merge (map (\<lambda>r. r\<lparr>Semana := Some week\<rparr>) ?rs) ?mp) = [Some ''G1'', Some ''G1'']"
    by (simp add: merge_def with_automation_def weekly_row.extend_def merged_row.fields_def)
  have keys: "sort (remdups (List.map_filter Automacao (merge (map (\<lambda>r. r\<lparr>Semana := Some week\<rparr>) ?rs) ?mp))) = [''G1'']"
    by (simp add: merge_def with_automation_def weekly_row.extend_def merged_row.fields_def List.map_filter_def)
  have grp: "groupby_sum Automacao (merge (map (\<lambda>r. r\<lparr>Semana := Some week\<rparr>) ?rs) ?mp)
     = [(''G1'', \<lparr>Sent = 250, Delivered = 246, Opened = 55, Clicked = 13,
          Bounced = (case bA of None \<Rightarrow> 0 | Some v \<Rightarrow> v) + (case bB of None \<Rightarrow> 0 | Some v \<Rightarrow> v),
          Unsubscribed = (case uA of None \<Rightarrow> 0 | Some v \<Rightarrow> v) + (case uB of None \<Rightarrow> 0 | Some v \<Rightarrow> v)\<rparr>)]"
    unfolding groupby_sum_def keys
    by (simp add: merge_def with_automation_def weekly_row.extend_def merged_row.fields_def
         agg_sum_def col_sum_def)
  show ?thesis
    unfolding get_automation_performance_fresh [OF st] recs grp
    by (simp add: with_rates_def rate_def)
qed

section \<open>The left join\<close>

text \<open>
  C9. When a mapping is loaded, \<^verbatim>\<open>merge_with_mapping\<close> returns a frame with at least
  as many rows as the weekly frame; every weekly row is the weekly part of a row of it;
  and a row whose campaign is not in the mapping is there with no \<^verbatim>\<open>Automacao\<close>, in
  every copy of it.
\<close>

theorem left_join_keeps_every_row:
  assumes "mapping_data p = Some mp" and "r \<in> set (records d)"
  shows "\<exists>out. merge_with_mapping p (Some d) = Inr out
           \<and> length (records d) \<le> length out
           \<and> (\<exists>j\<in>set out. weekly_row.truncate j = r)
           \<and> (Message_name r \<notin> fst ` set mp \<longrightarrow>
                 with_automation r None \<in> set out
                 \<and> (\<forall>j\<in>set out. weekly_row.truncate j = r \<longrightarrow> Automacao j = None))"
proof -
  have out: "merge_with_mapping p (Some d) = Inr (merge (records d) mp)"
    using assms(1) by (simp add: merge_with_mapping_def)
  obtain j where j: "j \<in> set (merge [r] mp)"
    using merge_one_nonempty [of r mp] by (cases "merge [r] mp") auto
  have sub: "set (merge [r] mp) \<subseteq> set (merge (records d) mp)"
    using assms(2) by (subst (2) set_merge) blast
  have kept: "\<exists>j\<in>set (merge (records d) mp). weekly_row.truncate j = r"
    using j sub merge_one_truncate by blast
  have unmatched: "with_automation r None \<in> set (merge (records d) mp)
      \<and> (\<forall>j\<in>set (merge (records d) mp). weekly_row.truncate j = r \<longrightarrow> Automacao j = None)"
    if un: "Message_name r \<notin> fst ` set mp"
  proof
    show "with_automation r None \<in> set (merge (records d) mp)"
      using sub merge_unmatched [OF un] by auto
    show "\<forall>j\<in>set (merge (records d) mp). weekly_row.truncate j = r \<longrightarrow> Automacao j = None"
    proof (intro ballI impI)
      fix j assume "j \<in> set (merge (records d) mp)" and t: "weekly_row.truncate j = r"
      then obtain r' where r': "r' \<in> set (records d)" "j \<in> set (merge [r'] mp)"
        by (subst (asm) set_merge) blast
      then have "r' = r" using merge_one_truncate t by blast
      then show "Automacao j = None" using r'(2) merge_unmatched [OF un] by simp
    qed
  qed
  show ?thesis
    using out length_merge kept unmatched by simp
qed

theorem left_join_keeps_every_row_witness:
  "mapping_data two_small_weeks = Some [(Some ''A'', Some ''G1'')]
   \<and> (campaign ''X'' 500 500 100 10)\<lparr>Semana := Some ''2025-01-06 a 2025-01-12''\<rparr>
         \<in> set (records (pd_concat (map snd (historical_data two_small_weeks))))
   \<and> Some ''X'' \<notin> fst ` set [(Some ''A'', Some ''G1'')]
   \<and> (\<exists>out. merge_with_mapping two_small_weeks
                (Some (pd_concat (map snd (historical_data two_small_weeks)))) = Inr out
          \<and> length out = 3
          \<and> with_automation
                ((campaign ''X'' 500 500 100 10)\<lparr>Semana := Some ''2025-01-06 a 2025-01-12''\<rparr>) None
                \<in> set out)"
proof -
  let ?d = "pd_concat (map snd (historical_data two_small_weeks))"
  let ?mp = "[(Some ''A'', Some ''G1'')]"
  let ?r = "(campaign ''X'' 500 500 100 10)\<lparr>Semana := Some ''2025-01-06 a 2025-01-12''\<rparr>"
  have h1: "mapping_data two_small_weeks = Some ?mp"
    by (rule two_small_weeks_state)
  have h2: "?r \<in> set (records ?d)"
    unfolding two_small_weeks_state by simp
  have h3: "Message_name ?r \<notin> fst ` set ?mp"
    by (simp add: campaign_def)
  have len: "length (merge (records ?d) ?mp) = 3"
    unfolding two_small_weeks_merged by simp
  have out: "merge_with_mapping two_small_weeks (Some ?d) = Inr (merge (records ?d) ?mp)"
    using h1 by (simp add: merge_with_mapping_def)
  from left_join_keeps_every_row [OF h1 h2] h3 out
  have "with_automation ?r None \<in> set (merge (records ?d) ?mp)"
    by auto
  with h1 h2 out len show ?thesis by simp
qed

section \<open>The filter on the volume\<close>



section \<open>Campaigns without a mapping\<close>

text \<open>
  C10. The frames of \<^verbatim>\<open>get_automation_performance\<close> and of
  \<^verbatim>\<open>get_weekly_automation_performance\<close> are the ones computed from the combined
  frame without the rows whose campaign is not in the mapping: these rows are in no
  group.
\<close>

theorem unmapped_rows_in_no_group:
  assumes "ensure_combined p = (p', Inr d)" and "mapping_data p = Some mp"
  shows "snd (get_automation_performance p min_emails) =
           Inr (filter (\<lambda>m. min_emails \<le> Sent m)
                  (map with_rates
                     (groupby_sum Automacao
                        (merge (filter (\<lambda>r. Message_name r \<in> fst ` set mp) (records d)) mp))))
         \<and> snd (get_weekly_automation_performance p) =
             Inr (map with_rates
                    (groupby_sum automation_week
                       (merge (filter (\<lambda>r. Message_name r \<in> fst ` set mp) (records d)) mp)))"
proof -
  let ?mapped = "filter (\<lambda>r. Message_name r \<in> fst ` set mp) (records d)"
  have au: "groupby_sum Automacao (merge ?mapped mp) = groupby_sum Automacao (merge (records d) mp)"
    by (rule groupby_sum_merge_mapped)
  have "automation_week j \<noteq> None \<Longrightarrow> Automacao j \<noteq> None" for j
    by (auto simp: automation_week_def split: option.splits)
  then have aw: "groupby_sum automation_week (merge ?mapped mp)
                   = groupby_sum automation_week (merge (records d) mp)"
    by (rule groupby_sum_merge_mapped)
  show ?thesis
    unfolding get_automation_performance_eq [OF assms]
      get_weekly_automation_performance_eq [OF assms] au aw
    by simp
qed

theorem unmapped_rows_in_no_group_witness:
  "ensure_combined two_small_weeks =
     (two_small_weeks\<lparr>all_weeks_data := Some (pd_concat (map snd (historical_data two_small_weeks)))\<rparr>,
      Inr (pd_concat (map snd (historical_data two_small_weeks))))
   \<and> mapping_data two_small_weeks = Some [(Some ''A'', Some ''G1'')]
   \<and> map (\<lambda>r. (Message_name r, Sent r))
        (records (pd_concat (map snd (historical_data two_small_weeks))))
        = [(Some ''A'', Some 60), (Some ''X'', Some 500), (Some ''A'', Some 60)]
   \<and> map (\<lambda>m. (group_key m, Sent m))
        (projr (snd (get_automation_performance two_small_weeks 0))) = [(''G1'', 120)]
   \<and> map (\<lambda>m. (group_key m, Sent m))
        (projr (snd (get_weekly_automation_performance two_small_weeks)))
        = [((''G1'', ''2025-01-06 a 2025-01-12''), 60), ((''G1'', ''2025-01-13 a 2025-01-19''), 60)]"
proof -
  let ?d = "pd_concat (map snd (historical_data two_small_weeks))"
  let ?mp = "[(Some ''A'', Some ''G1'')]"
  let ?w1 = "''2025-01-06 a 2025-01-12''" and ?w2 = "''2025-01-13 a 2025-01-19''"
  let ?a1 = "with_automation ((campaign ''A'' 60 60 30 3)\<lparr>Semana := Some ?w1\<rparr>) (Some ''G1'')"
  let ?a2 = "with_automation ((campaign ''A'' 60 60 30 3)\<lparr>Semana := Some ?w2\<rparr>) (Some ''G1'')"
  have h1: "ensure_combined two_small_weeks = (two_small_weeks\<lparr>all_weeks_data := Some ?d\<rparr>, Inr ?d)"
    by (rule ensure_combined_fresh) (rule two_small_weeks_state)+
  have h2: "mapping_data two_small_weeks = Some ?mp"
    by (rule two_small_weeks_state)
  have rows: "map (\<lambda>r. (Message_name r, Sent r)) (records ?d)
                = [(Some ''A'', Some 60), (Some ''X'', Some 500), (Some ''A'', Some 60)]"
    unfolding two_small_weeks_state by (simp add: campaign_def)
  have mapped: "merge (filter (\<lambda>r. Message_name r \<in> fst ` set ?mp) (records ?d)) ?mp = [?a1, ?a2]"
    unfolding two_small_weeks_state by (simp add: campaign_def merge_def)
  have ka: "sort (remdups (List.map_filter Automacao [?a1, ?a2])) = [''G1'']"
    by (simp add: List.map_filter_def)
  have kw: "sort (remdups (List.map_filter automation_week [?a1, ?a2])) = [(''G1'', ?w1), (''G1'', ?w2)]"
    by (simp add: List.map_filter_def automation_week_def)
  have ga: "groupby_sum Automacao [?a1, ?a2]
              = [(''G1'', \<lparr>Sent = 120, Delivered = 120, Opened = 60, Clicked = 6,
                            Bounced = 0, Unsubscribed = 0\<rparr>)]"
    unfolding groupby_sum_def ka by (simp add: campaign_def col_sum_def agg_sum_def with_automation_def
          weekly_row.extend_def merged_row.fields_def)
  have gw: "groupby_sum automation_week [?a1, ?a2]
              = [((''G1'', ?w1), \<lparr>Sent = 60, Delivered = 60, Opened = 30, Clicked = 3,
                                    Bounced = 0, Unsubscribed = 0\<rparr>),
                 ((''G1'', ?w2), \<lparr>Sent = 60, Delivered = 60, Opened = 30, Clicked = 3,
                                    Bounced = 0, Unsubscribed = 0\<rparr>)]"
    unfolding groupby_sum_def kw
    by (simp add: campaign_def col_sum_def agg_sum_def automation_week_def with_automation_def
          weekly_row.extend_def merged_row.fields_def)
  have "map (\<lambda>m. (group_key m, Sent m)) (projr (snd (get_automation_performance two_small_weeks 0)))
          = [(''G1'', 120)]"
    using unmapped_rows_in_no_group [OF h1 h2, of 0] unfolding mapped ga by simp
  moreover have "map (\<lambda>m. (group_key m, Sent m))
        (projr (snd (get_weekly_automation_performance two_small_weeks)))
        = [((''G1'', ?w1), 60), ((''G1'', ?w2), 60)]"
    using unmapped_rows_in_no_group [OF h1 h2, of 0] unfolding mapped gw by simp
  ultimately show ?thesis using h1 h2 rows by simp
qed

section \<open>The order of the weeks in the changes\<close>

text \<open>
  C2, as amended. In the frame that \<^verbatim>\<open>get_week_over_week_changes\<close> returns, the rows
  of one automation stand in the ascending order of the text of their week labels,
  compared character by character as Python compares strings; the whole frame is
  sorted by automation and label; and each column of changes is \<^verbatim>\<open>pct_change\<close> of its
  rate over the rows in that order. The order in which the weeks were loaded is not
  read.
\<close>

theorem changes_follow_label_text:
  assumes "get_week_over_week_changes pad p = (p', Inr out)"
  shows "(\<forall>i j. i < j \<and> j < length out \<and> fst (group_key (out ! i)) = fst (group_key (out ! j))
            \<longrightarrow> snd (group_key (out ! i)) < snd (group_key (out ! j)))
         \<and> sorted (map group_key out)
         \<and> map Open_Rate_Change out = rate_change pad Open_Rate out
         \<and> map Click_Rate_Change out = rate_change pad Click_Rate out
         \<and> map CTOR_Change out = rate_change pad CTOR out"
proof -
  note frame = changes_frame [OF assms]
  have "snd (group_key (out ! i)) < snd (group_key (out ! j))"
    if "i < j" and "j < length out" and "fst (group_key (out ! i)) = fst (group_key (out ! j))"
    for i j
  proof -
    have "map group_key out ! i \<le> map group_key out ! j"
      using frame(1) that(1,2) by (simp add: sorted_iff_nth_mono)
    moreover have "map group_key out ! i \<noteq> map group_key out ! j"
      using nth_eq_iff_index_eq [OF frame(2), of i j] that(1,2) by simp
    ultimately have "group_key (out ! i) < group_key (out ! j)"
      using that(1,2) by simp
    then show ?thesis
      using that(3) by (cases "group_key (out ! i)"; cases "group_key (out ! j)") (simp add: less_prod_def)
  qed
  with frame show ?thesis by blast
qed

theorem changes_follow_label_text_witness:
  "\<exists>p' out. get_week_over_week_changes True week_nine_then_ten = (p', Inr out)
      \<and> map group_key out = [(''G1'', ''Week 10''), (''G1'', ''Week 9'')]
      \<and> ''Week 10'' < ''Week 9''
      \<and> sorted (map group_key out)
      \<and> map Open_Rate_Change out = rate_change True Open_Rate out
      \<and> map Open_Rate_Change out = [NaN, Fin (- 50)]"
proof -
  obtain p' out where run: "get_week_over_week_changes True week_nine_then_ten = (p', Inr out)"
    using get_week_over_week_changes_eq [OF week_nine_then_ten_performance] by blast
  have vals: "map (\<lambda>c. (group_key c, Open_Rate c, Open_Rate_Change c)) out
     = [((''G1'', ''Week 10''), Fin (1 / 2), NaN), ((''G1'', ''Week 9''), Fin (1 / 4), Fin (- 50))]"
    using week_nine_then_ten_changes [of True] by (simp add: run)
  have keys: "map group_key out = [(''G1'', ''Week 10''), (''G1'', ''Week 9'')]"
    using arg_cong [OF vals, of "map fst"] by (simp add: comp_def)
  have chg: "map Open_Rate_Change out = [NaN, Fin (- 50)]"
    using arg_cong [OF vals, of "map (\<lambda>x. snd (snd x))"] by (simp add: comp_def)
  have lt: "''Week 10'' < ''Week 9''" by simp
  from changes_follow_label_text [OF run]
  have srt: "sorted (map group_key out)"
    and pct: "map Open_Rate_Change out = rate_change True Open_Rate out"
    by simp_all
  show ?thesis
    by (rule exI [of _ p'], rule exI [of _ out]) (intro conjI run keys lt srt pct chg)
qed

text \<open>
  The weeks \<^verbatim>\<open>Week 9\<close> and \<^verbatim>\<open>Week 10\<close> are loaded in this order, and the store and
  the metadata keep it. The frame of changes has \<^verbatim>\<open>Week 10\<close> first: its change is
  missing, and the change of \<^verbatim>\<open>Week 9\<close> is taken against it.
\<close>

theorem week_order_counterexample:
  "get_available_weeks week_nine_then_ten = [Some ''Week 9'', Some ''Week 10'']
   \<and> map fst (historical_data week_nine_then_ten) = [Some ''Week 9'', Some ''Week 10'']
   \<and> (\<forall>pad. map (\<lambda>c. (group_key c, Open_Rate c, Open_Rate_Change c))
               (projr (snd (get_week_over_week_changes pad week_nine_then_ten)))
             = [((''G1'', ''Week 10''), Fin (1 / 2), NaN),
                ((''G1'', ''Week 9''), Fin (1 / 4), Fin (- 50))])"
  by (simp add: get_available_weeks_def week_nine_then_ten_state week_nine_then_ten_changes)

section \<open>The value of a change\<close>

text \<open>
  C3, as amended. For each of the open rate, the click rate and the CTOR, in the frame
  that \<^verbatim>\<open>get_week_over_week_changes\<close> returns: the change of the first row of an
  automation is missing; and when a row follows a row of its automation, with the finite
  rates \<open>y\<close> after \<open>x\<close>, its change is \<open>(y - x) / x * 100\<close> when \<open>x\<close> is not 0, and
  when \<open>x\<close> is 0 it is plus infinity for a positive \<open>y\<close>, minus infinity for a negative
  one, and missing only when \<open>y\<close> is 0 too.
\<close>

theorem week_over_week_change_values:
  assumes "get_week_over_week_changes pad p = (p', Inr out)"
    and "(col, change) \<in> {(Open_Rate, Open_Rate_Change), (Click_Rate, Click_Rate_Change),
                            (CTOR, CTOR_Change)}"
  shows "(\<forall>ys m ws. out = ys @ m # ws \<and> fst (group_key m) \<notin> (fst \<circ> group_key) ` set ys
            \<longrightarrow> change m = NaN)
         \<and> (\<forall>ys m1 m2 ws x y.
               out = ys @ m1 # m2 # ws \<and> fst (group_key m1) = fst (group_key m2)
               \<and> col m1 = Fin x \<and> col m2 = Fin y
            \<longrightarrow> change m2 = (if x \<noteq> 0 then Fin ((y - x) / x * 100)
                             else if 0 < y then PInf else if y < 0 then NInf else NaN))"
proof -
  let ?g = "\<lambda>m. (fst (group_key m), col m)"
  have col: "map change out = map (\<lambda>c. fmul c (Fin 100)) (pct_change pad Map.empty (map ?g out))"
    using changes_frame(3-5) [OF assms(1)] assms(2) by (auto simp: rate_change_def)
  have first: "change m = NaN"
    if "out = ys @ m # ws" and "fst (group_key m) \<notin> (fst \<circ> group_key) ` set ys" for ys m ws
  proof -
    have fresh: "fst (group_key m) \<notin> fst ` set (map ?g ys)"
      using that(2) by (auto simp: image_iff)
    have "change m = map change out ! length ys"
      by (simp add: that(1) nth_append)
    also have "\<dots> = map (\<lambda>c. fmul c (Fin 100)) (pct_change pad Map.empty (map ?g out)) ! length ys"
      by (simp only: col)
    also have "\<dots> = fmul (pct_change pad Map.empty (map ?g out) ! length ys) (Fin 100)"
      by (rule nth_map) (simp add: that(1))
    also have "pct_change pad Map.empty (map ?g out) ! length ys = NaN"
      using pct_change_first [OF fresh, of pad "col m" "map ?g ws"] by (simp add: that(1))
    finally show ?thesis by simp
  qed
  have later: "change m2 = (if x \<noteq> 0 then Fin ((y - x) / x * 100)
                             else if 0 < y then PInf else if y < 0 then NInf else NaN)"
    if "out = ys @ m1 # m2 # ws" and "fst (group_key m1) = fst (group_key m2)"
      and "col m1 = Fin x" and "col m2 = Fin y" for ys m1 m2 ws x y
  proof -
    have "change m2 = map change out ! Suc (length ys)"
      by (simp add: that(1) nth_append)
    also have "\<dots> = map (\<lambda>c. fmul c (Fin 100)) (pct_change pad Map.empty (map ?g out))
                          ! Suc (length ys)"
      by (simp only: col)
    also have "\<dots> = fmul (pct_change pad Map.empty (map ?g out) ! Suc (length ys)) (Fin 100)"
      by (rule nth_map) (simp add: that(1))
    also have "pct_change pad Map.empty (map ?g out) ! Suc (length ys)
                 = fsub (fdiv (Fin y) (Fin x)) (Fin 1)"
      using pct_change_next [of pad Map.empty "map ?g ys" "fst (group_key m2)" x y "map ?g ws"]
      by (simp add: that)
    finally show ?thesis by (simp only: percent_change_value)
  qed
  show ?thesis using first later by blast
qed

theorem week_over_week_change_values_witness:
  "(\<exists>p' m1 m2. get_week_over_week_changes True zero_then_half = (p', Inr ([] @ m1 # m2 # []))
      \<and> (Open_Rate, Open_Rate_Change)
           \<in> {(Open_Rate, Open_Rate_Change), (Click_Rate, Click_Rate_Change), (CTOR, CTOR_Change)}
      \<and> fst (group_key m1) \<notin> (fst \<circ> group_key) ` set []
      \<and> fst (group_key m1) = fst (group_key m2)
      \<and> Open_Rate m1 = Fin 0 \<and> Open_Rate m2 = Fin (1 / 2)
      \<and> Open_Rate_Change m1 = NaN \<and> Open_Rate_Change m2 = PInf)
   \<and> (\<exists>p' m1 m2. get_week_over_week_changes True week_nine_then_ten = (p', Inr ([] @ m1 # m2 # []))
      \<and> fst (group_key m1) = fst (group_key m2)
      \<and> Open_Rate m1 = Fin (1 / 2) \<and> Open_Rate m2 = Fin (1 / 4)
      \<and> Open_Rate_Change m2 = Fin ((1 / 4 - 1 / 2) / (1 / 2) * 100))"
proof (rule conjI)
  obtain p' out where run: "get_week_over_week_changes True zero_then_half = (p', Inr out)"
    using get_week_over_week_changes_eq [OF zero_then_half_performance] by blast
  have "map (\<lambda>c. (group_key c, Open_Rate c, Open_Rate_Change c)) out
     = [((''G1'', ''2025-01-06 a 2025-01-12''), Fin 0, NaN),
        ((''G1'', ''2025-01-13 a 2025-01-19''), Fin (1 / 2), PInf)]"
    using zero_then_half_changes [of True] by (simp add: run)
  then obtain m1 m2 where out: "out = [] @ m1 # m2 # []"
    and rates: "Open_Rate m1 = Fin 0" "Open_Rate m2 = Fin (1 / 2)"
    and same: "fst (group_key m1) = fst (group_key m2)"
    by auto
  have mem: "(Open_Rate, Open_Rate_Change)
           \<in> {(Open_Rate, Open_Rate_Change), (Click_Rate, Click_Rate_Change), (CTOR, CTOR_Change)}"
    by simp
  have fresh: "fst (group_key m1) \<notin> (fst \<circ> group_key) ` set []" by simp
  note inst = week_over_week_change_values [OF run mem]
  have c1: "Open_Rate_Change m1 = NaN"
    using inst out fresh by blast
  have c2: "Open_Rate_Change m2 = PInf"
    using conjunct2 [OF inst, rule_format, of "[]" m1 m2 "[]" 0 "1 / 2"] out same rates by simp
  show "\<exists>p' m1 m2. get_week_over_week_changes True zero_then_half = (p', Inr ([] @ m1 # m2 # []))
      \<and> (Open_Rate, Open_Rate_Change)
           \<in> {(Open_Rate, Open_Rate_Change), (Click_Rate, Click_Rate_Change), (CTOR, CTOR_Change)}
      \<and> fst (group_key m1) \<notin> (fst \<circ> group_key) ` set []
      \<and> fst (group_key m1) = fst (group_key m2)
      \<and> Open_Rate m1 = Fin 0 \<and> Open_Rate m2 = Fin (1 / 2)
      \<and> Open_Rate_Change m1 = NaN \<and> Open_Rate_Change m2 = PInf"
    by (rule exI [of _ p'], rule exI [of _ m1], rule exI [of _ m2])
       (intro conjI run [unfolded out] mem fresh same rates c1 c2)
next
  obtain p' out where run: "get_week_over_week_changes True week_nine_then_ten = (p', Inr out)"
    using get_week_over_week_changes_eq [OF week_nine_then_ten_performance] by blast
  have "map (\<lambda>c. (group_key c, Open_Rate c, Open_Rate_Change c)) out
     = [((''G1'', ''Week 10''), Fin (1 / 2), NaN), ((''G1'', ''Week 9''), Fin (1 / 4), Fin (- 50))]"
    using week_nine_then_ten_changes [of True] by (simp add: run)
  then obtain m1 m2 where out: "out = [] @ m1 # m2 # []"
    and rates: "Open_Rate m1 = Fin (1 / 2)" "Open_Rate m2 = Fin (1 / 4)"
    and same: "fst (group_key m1) = fst (group_key m2)"
    by auto
  have mem: "(Open_Rate, Open_Rate_Change)
           \<in> {(Open_Rate, Open_Rate_Change), (Click_Rate, Click_Rate_Change), (CTOR, CTOR_Change)}"
    by simp
  note inst = week_over_week_change_values [OF run mem]
  have c2: "Open_Rate_Change m2 = Fin ((1 / 4 - 1 / 2) / (1 / 2) * 100)"
    using conjunct2 [OF inst, rule_format, of "[]" m1 m2 "[]" "1 / 2" "1 / 4"] out same rates by simp
  show "\<exists>p' m1 m2. get_week_over_week_changes True week_nine_then_ten = (p', Inr ([] @ m1 # m2 # []))
      \<and> fst (group_key m1) = fst (group_key m2)
      \<and> Open_Rate m1 = Fin (1 / 2) \<and> Open_Rate m2 = Fin (1 / 4)
      \<and> Open_Rate_Change m2 = Fin ((1 / 4 - 1 / 2) / (1 / 2) * 100)"
    by (rule exI [of _ p'], rule exI [of _ m1], rule exI [of _ m2])
       (intro conjI run [unfolded out] same rates c2)
qed

text \<open>
  An open rate of 0 in the first week and of one half in the second: the change of the
  second week is infinite.
\<close>

theorem zero_previous_rate_counterexample:
  "\<forall>pad. map (\<lambda>c. (group_key c, Open_Rate c, Open_Rate_Change c))
            (projr (snd (get_week_over_week_changes pad zero_then_half)))
     = [((''G1'', ''2025-01-06 a 2025-01-12''), Fin 0, NaN),
        ((''G1'', ''2025-01-13 a 2025-01-19''), Fin (1 / 2), PInf)]"
  by (simp add: zero_then_half_changes)

section \<open>A denominator of zero\<close>

text \<open>
  C1. One week with one campaign that was sent and delivered 200 times and never opened:
  the CTOR of its group, 0 clicks over 0 opens, is \<open>NaN\<close> in the frames of
  \<^verbatim>\<open>get_automation_performance\<close>, \<^verbatim>\<open>get_weekly_automation_performance\<close> and
  \<^verbatim>\<open>analyze_subject_performance\<close>, which divide the columns of sums with no guard.
  \<^verbatim>\<open>get_week_summary\<close>, which guards each division, reports 0 for the same week.
\<close>

theorem zero_denominator_gives_nan:
  "map (\<lambda>m. (group_key m, Clicked m, Opened m, CTOR m))
       (projr (snd (get_automation_performance no_opens 100))) = [(''G1'', 0, 0, NaN)]
   \<and> map (\<lambda>m. (group_key m, Clicked m, Opened m, CTOR m))
         (projr (snd (get_weekly_automation_performance no_opens)))
       = [((''G1'', ''2025-01-06 a 2025-01-12''), 0, 0, NaN)]
   \<and> map (\<lambda>m. (group_key m, Clicked m, Opened m, CTOR m))
         (projr (snd (analyze_subject_performance no_opens 100))) = [(''Hello'', 0, 0, NaN)]
   \<and> map_sum id (\<lambda>s. (total_clicked s, total_opened s, ctor s)) (get_week_summary no_opens None)
       = Inr (0, 0, Fin 0)"
proof -
  let ?d = "pd_concat (map snd (historical_data no_opens))"
  let ?mp = "[(Some ''A'', Some ''G1'')]"
  let ?w = "''2025-01-06 a 2025-01-12''"
  let ?r = "(campaign ''A'' 200 200 0 0)\<lparr>Semana := Some ?w\<rparr>"
  let ?c = "\<lparr>Sent = 200, Delivered = 200, Opened = 0, Clicked = 0, Bounced = 0,
             Unsubscribed = 0\<rparr> :: int counters"
  have h1: "ensure_combined no_opens = (no_opens\<lparr>all_weeks_data := Some ?d\<rparr>, Inr ?d)"
    by (rule ensure_combined_fresh) (rule no_opens_state)+
  have h2: "mapping_data no_opens = Some ?mp"
    by (rule no_opens_state)
  have merged: "merge (records ?d) ?mp = [with_automation ?r (Some ''G1'')]"
    unfolding no_opens_state by (simp add: campaign_def merge_def)
  have ga: "groupby_sum Automacao [with_automation ?r (Some ''G1'')] = [(''G1'', ?c)]"
    by (simp add: groupby_sum_def List.map_filter_def row_defs)
  have gw: "groupby_sum automation_week [with_automation ?r (Some ''G1'')] = [((''G1'', ?w), ?c)]"
    by (simp add: groupby_sum_def List.map_filter_def row_defs)
  have gs: "groupby_sum Subject [?r] = [(''Hello'', ?c)]"
    by (simp add: groupby_sum_def List.map_filter_def row_defs)
  have a: "map (\<lambda>m. (group_key m, Clicked m, Opened m, CTOR m))
       (projr (snd (get_automation_performance no_opens 100))) = [(''G1'', 0, 0, NaN)]"
    unfolding get_automation_performance_eq [OF h1 h2] merged ga
    by (simp add: with_rates_def rate_def)
  have w: "map (\<lambda>m. (group_key m, Clicked m, Opened m, CTOR m))
         (projr (snd (get_weekly_automation_performance no_opens))) = [((''G1'', ?w), 0, 0, NaN)]"
    unfolding get_weekly_automation_performance_eq [OF h1 h2] merged gw
    by (simp add: with_rates_def rate_def)
  have s: "map (\<lambda>m. (group_key m, Clicked m, Opened m, CTOR m))
         (projr (snd (analyze_subject_performance no_opens 100))) = [(''Hello'', 0, 0, NaN)]"
    unfolding analyze_subject_performance_eq [OF h1] no_opens_state gs
    by (simp add: with_rates_def rate_def)
  have "map_sum id (\<lambda>s. (total_clicked s, total_opened s, ctor s)) (get_week_summary no_opens None)
       = Inr (0, 0, Fin 0)"
    by (simp add: no_opens_summary)
  with a w s show ?thesis by simp
qed

section \<open>A percentage that does not parse\<close>

text \<open>
  C4. \<^verbatim>\<open>_convert_percent_to_float\<close> turns the cell \<^verbatim>\<open>25%\<close> into 1/4, and raises
  \<^verbatim>\<open>ValueError\<close> on the cell \<^verbatim>\<open>12,5%\<close>; \<^verbatim>\<open>load_weekly_data\<close> on a frame with
  that cell in its \<^verbatim>\<open>Open rate\<close> column raises it too and stores nothing, whatever the
  state, the path, the label and the clock are.
\<close>

theorem unparseable_percent_raises:
  "convert_percent_to_float (Str ''12,5%'') = Inl ValueError
   \<and> convert_percent_to_float (Str ''25%'') = Inr (Num (Fin (1 / 4)))
   \<and> load_weekly_data p comma_upload file_path week_label now = (p, Inl ValueError)"
  by (simp add: convert_examples load_comma_upload)

section \<open>The label of a week\<close>

text \<open>
  C5. On a path that is a string, as the signature asks, the body of the \<^verbatim>\<open>try\<close>
  never raises, so the \<^verbatim>\<open>except\<close> with the label \<^verbatim>\<open>Semana <week>, <year>\<close>
  never runs. A name of the export convention gives the
  label \<^verbatim>\<open>2025-01-06 a 2025-01-12\<close>; the name \<^verbatim>\<open>/tmp/tmpk3x9ab.csv\<close>, without
  \<^verbatim>\<open>sent_\<close>, gives no label: \<^verbatim>\<open>load_weekly_data\<close> then tags every row with
  \<^verbatim>\<open>None\<close>, stores the frame and raises \<^verbatim>\<open>AttributeError\<close>.
\<close>

theorem fallback_label_never_used:
  "\<not> isl (label_of_filename filename)
   \<and> infer_week_label ''/data/Automation_messages_sent_2025-01-062025-01-12.csv'' now
       = Some ''2025-01-06 a 2025-01-12''
   \<and> infer_week_label ''/tmp/tmpk3x9ab.csv'' now = None
   \<and> snd (load_weekly_data p \<lparr>rate_columns = [], records = rows\<rparr> ''/tmp/tmpk3x9ab.csv'' None now)
       = Inl AttributeError
   \<and> current_week_data
        (fst (load_weekly_data p \<lparr>rate_columns = [], records = rows\<rparr> ''/tmp/tmpk3x9ab.csv'' None now))
       = Some \<lparr>rate_columns = [], records = map (\<lambda>r. r\<lparr>Semana := None\<rparr>) rows\<rparr>"
  by (simp add: label_of_filename_never_raises export_name_label temporary_name_label
      load_weekly_data_def convert_columns_Nil Let_def)

section \<open>The range of the normalized rates\<close>




end
